theory Spec2Isabelle
  imports Complex_Main
begin

section \<open>Strings and the pattern of the email validator\<close>

text \<open>
  Strings are lists of characters, read as ASCII text. \<open>\w\<close> of a JavaScript regular
  expression is the class \<open>[A-Za-z0-9_]\<close>.
\<close>

definition word_char :: "char \<Rightarrow> bool" where
  "word_char c \<longleftrightarrow>
     c \<in> set ''abcdefghijklmnopqrstuvwxyzABCDEFGHIJKLMNOPQRSTUVWXYZ0123456789_''"

definition is_space :: "char \<Rightarrow> bool" where
  "is_space c \<longleftrightarrow> c \<in> set [CHR '' '', CHR 0x09, CHR 0x0A, CHR 0x0B, CHR 0x0C, CHR 0x0D]"

text \<open>\<open>String.prototype.toLowerCase\<close> and \<open>String.prototype.trim\<close> on ASCII text.\<close>

definition toLowerCase :: "string \<Rightarrow> string" where
  "toLowerCase s =
     map (\<lambda>c. case map_of (zip ''ABCDEFGHIJKLMNOPQRSTUVWXYZ'' ''abcdefghijklmnopqrstuvwxyz'') c of
               Some l \<Rightarrow> l | None \<Rightarrow> c) s"

definition trim :: "string \<Rightarrow> string" where
  "trim s = rev (dropWhile is_space (rev (dropWhile is_space s)))"

text \<open>
  Regular expressions without back-references or look-around, which is all the pattern of
  the schema uses. A character class is \<open>\w\<close>, a bracket list such as \<open>[.-]\<close>, or one
  literal character.
\<close>

datatype cclass = Word | Chars string | Single char

fun in_class :: "cclass \<Rightarrow> char \<Rightarrow> bool" where
  "in_class Word c = word_char c"
| "in_class (Chars cs) c = (c \<in> set cs)"
| "in_class (Single d) c = (c = d)"

datatype regex = Empty | Epsilon | Cls cclass | Seq regex regex | Alt regex regex | Star regex

text \<open>The quantifiers \<open>r?\<close>, \<open>r+\<close> and \<open>r{m,n}\<close>.\<close>

definition Opt :: "regex \<Rightarrow> regex" where
  "Opt r = Alt r Epsilon"

definition Plus :: "regex \<Rightarrow> regex" where
  "Plus r = Seq r (Star r)"

fun Rep :: "nat \<Rightarrow> nat \<Rightarrow> regex \<Rightarrow> regex" where
  "Rep 0 0 r = Epsilon"
| "Rep 0 (Suc n) r = Opt (Seq r (Rep 0 n r))"
| "Rep (Suc m) 0 r = Empty"
| "Rep (Suc m) (Suc n) r = Seq r (Rep m n r)"

text \<open>
  \<open>RegExp.prototype.test\<close> for a pattern anchored by \<open>^\<close> and \<open>$\<close> (no flags): the
  whole string has to match. It is computed with derivatives; \<open>lang\<close> below is the set of
  strings a pattern denotes, and \<open>test_iff_lang\<close> shows that the two agree.
\<close>

fun nullable :: "regex \<Rightarrow> bool" where
  "nullable Empty = False"
| "nullable Epsilon = True"
| "nullable (Cls k) = False"
| "nullable (Seq r s) = (nullable r \<and> nullable s)"
| "nullable (Alt r s) = (nullable r \<or> nullable s)"
| "nullable (Star r) = True"

fun deriv :: "char \<Rightarrow> regex \<Rightarrow> regex" where
  "deriv c Empty = Empty"
| "deriv c Epsilon = Empty"
| "deriv c (Cls k) = (if in_class k c then Epsilon else Empty)"
| "deriv c (Seq r s) =
     (if nullable r then Alt (Seq (deriv c r) s) (deriv c s) else Seq (deriv c r) s)"
| "deriv c (Alt r s) = Alt (deriv c r) (deriv c s)"
| "deriv c (Star r) = Seq (deriv c r) (Star r)"

fun test :: "regex \<Rightarrow> string \<Rightarrow> bool" where
  "test r [] = nullable r"
| "test r (c # cs) = test (deriv c r) cs"

definition conc :: "string set \<Rightarrow> string set \<Rightarrow> string set" where
  "conc A B = {xs @ ys | xs ys. xs \<in> A \<and> ys \<in> B}"

inductive_set star :: "string set \<Rightarrow> string set" for A :: "string set" where
  star_nil: "[] \<in> star A"
| star_app: "xs \<in> A \<Longrightarrow> ys \<in> star A \<Longrightarrow> xs @ ys \<in> star A"

fun lang :: "regex \<Rightarrow> string set" where
  "lang Empty = {}"
| "lang Epsilon = {[]}"
| "lang (Cls k) = {[c] | c. in_class k c}"
| "lang (Seq r s) = conc (lang r) (lang s)"
| "lang (Alt r s) = lang r \<union> lang s"
| "lang (Star r) = star (lang r)"

text \<open>
  The pattern of \<open>userSchema.email\<close>:
  \<^verbatim>\<open>/^\w+([.-]?\w+)*@\w+([.-]?\w+)*(\.\w{2,3})+$/\<close>.
  \<open>email_part\<close> is \<^verbatim>\<open>\w+([.-]?\w+)*\<close>, which occurs on both sides of the \<open>@\<close>.
\<close>

definition email_part :: regex where
  "email_part =
     Seq (Plus (Cls Word)) (Star (Seq (Opt (Cls (Chars ''.-''))) (Plus (Cls Word))))"

definition email_re :: regex where
  "email_re =
     Seq email_part (Seq (Cls (Single CHR ''@'')) (Seq email_part
       (Plus (Seq (Cls (Single CHR ''.'')) (Rep 2 3 (Cls Word))))))"

text \<open>The characters after the last dot of a string, and the property that there is a
  dot and that they are two or three word characters.\<close>

definition final_label :: "string \<Rightarrow> string" where
  "final_label s = rev (takeWhile (\<lambda>c. c \<noteq> CHR ''.'') (rev s))"

definition short_final_label :: "string \<Rightarrow> bool" where
  "short_final_label s \<longleftrightarrow>
     CHR ''.'' \<in> set s \<and> (length (final_label s) = 2 \<or> length (final_label s) = 3)
     \<and> list_all word_char (final_label s)"


section \<open>Schemas, documents and validation\<close>

text \<open>
  The models of this repository are declared as Mongoose schemas. A schema is kept as
  data, path by path with the options the source gives; the functions of this section
  give those options the meaning Mongoose documents for them. The custom messages of
  the validators are left out: a failed validator is reported by its path and kind.
  A value is one of the schema types the source uses; absent (undefined) is \<open>None\<close>.
  Numbers are rationals (\<open>NaN\<close> and the infinities are outside the model), dates are
  timestamps, object identifiers are their strings.
\<close>

datatype sval = Str string | Num rat | Bool bool | Date int | ObjectId string

datatype stype = TString | TNumber | TBoolean | TDate | TObjectId

record path_opts =
  ptype :: stype
  required :: bool
  unique :: bool
  lowercase :: bool
  ptrim :: bool
  maxlength :: "nat option"
  minlength :: "nat option"
  pmatch :: "regex option"
  penum :: "string list option"
  pdefault :: "sval option"
  pselect :: bool
  ref :: "string option"

text \<open>A path of a type with no option set (\<open>{ type: T }\<close>); paths are selected by default.\<close>

definition path_of :: "stype \<Rightarrow> path_opts" where
  "path_of t = \<lparr>ptype = t, required = False, unique = False, lowercase = False,
     ptrim = False, maxlength = None, minlength = None, pmatch = None, penum = None,
     pdefault = None, pselect = True, ref = None\<rparr>"

record schema =
  paths :: "(string \<times> path_opts) list"
  timestamps :: bool

type_synonym fields = "string \<rightharpoonup> sval"

datatype vkind = CastFailed | Required | MaxLength | MinLength | Match | Enum

type_synonym verror = "string \<times> vkind"

fun has_type :: "stype \<Rightarrow> sval \<Rightarrow> bool" where
  "has_type TString (Str s) = True"
| "has_type TNumber (Num n) = True"
| "has_type TBoolean (Bool b) = True"
| "has_type TDate (Date d) = True"
| "has_type TObjectId (ObjectId i) = True"
| "has_type t v = False"

text \<open>The setters \<open>trim\<close> and \<open>lowercase\<close> of a string path, applied when a value is set.\<close>

definition apply_setters :: "path_opts \<Rightarrow> sval \<Rightarrow> sval" where
  "apply_setters opts v =
     (case v of
        Str s \<Rightarrow> Str ((if lowercase opts then toLowerCase else id)
                       ((if ptrim opts then trim else id) s))
      | _ \<Rightarrow> v)"

text \<open>
  The validators of a string path. \<open>match\<close> passes the empty string (Mongoose tests the
  pattern only on a non-empty value). No path of this repository declares two of them,
  so the order among them is not observable.
\<close>

definition string_validators :: "path_opts \<Rightarrow> string \<Rightarrow> vkind option" where
  "string_validators opts s =
     (if (case maxlength opts of Some n \<Rightarrow> n < length s | None \<Rightarrow> False) then Some MaxLength
      else if (case minlength opts of Some n \<Rightarrow> length s < n | None \<Rightarrow> False) then Some MinLength
      else if (case pmatch opts of Some r \<Rightarrow> s \<noteq> [] \<and> \<not> test r s | None \<Rightarrow> False)
        then Some Match
      else if (case penum opts of Some vs \<Rightarrow> s \<notin> set vs | None \<Rightarrow> False) then Some Enum
      else None)"

text \<open>
  One path: a value of another type than the declared one is a cast failure (the
  conversions Mongoose attempts between types are outside the model); \<open>required\<close> runs
  first and fails on an absent value and on the empty string; the other validators do not
  run on an absent value. A path reports its first failure only.
\<close>

definition validate_path :: "path_opts \<Rightarrow> sval option \<Rightarrow> vkind option" where
  "validate_path opts v =
     (case v of
        None \<Rightarrow> if required opts then Some Required else None
      | Some x \<Rightarrow>
          if \<not> has_type (ptype opts) x then Some CastFailed
          else (case x of
                  Str s \<Rightarrow> if required opts \<and> s = [] then Some Required
                           else string_validators opts s
                | _ \<Rightarrow> None))"

definition validate :: "schema \<Rightarrow> fields \<Rightarrow> verror list" where
  "validate sch f =
     List.map_filter (\<lambda>(p, opts). map_option (Pair p) (validate_path opts (f p))) (paths sch)"

text \<open>\<open>userSchema\<close>, as declared.\<close>

definition userSchema :: schema where
  "userSchema = \<lparr>paths =
     [(''name'', (path_of TString)\<lparr>required := True, ptrim := True, maxlength := Some 50\<rparr>),
      (''email'', (path_of TString)\<lparr>required := True, unique := True, lowercase := True,
          ptrim := True, pmatch := Some email_re\<rparr>),
      (''password'', (path_of TString)\<lparr>required := True, minlength := Some 8,
          pselect := False\<rparr>),
      (''role'', (path_of TString)\<lparr>penum := Some [''user'', ''admin''],
          pdefault := Some (Str ''user'')\<rparr>)],
     timestamps = True\<rparr>"


section \<open>Documents, the collection and the User model\<close>

datatype error =
    ValidationError "verror list"
  | DuplicateKey string
  | DocumentNotFound
  | IllegalArguments
  | BcryptFailure

text \<open>
  \<open>bcryptjs\<close> is a library outside the repository. The three functions the code calls
  are parameters of the model: \<open>genSalt rounds\<close> is the result of the one (random) salt
  generation of a save, \<open>hash s salt\<close> and \<open>compare s h\<close> are called with strings; each
  may fail. What the library does when it is handed a value that is not a string is
  written into the callers below: it rejects with an "Illegal arguments" error.
\<close>

record bcrypt =
  genSalt :: "nat \<Rightarrow> error + string"
  hash :: "string \<Rightarrow> string \<Rightarrow> error + string"
  compare :: "string \<Rightarrow> string \<Rightarrow> error + bool"

datatype bcrypt_call = GenSalt nat | Hash string string

text \<open>
  A document in memory: its identifier, the values of its paths, the paths modified since
  it was loaded or created, whether it is new, and the paths the query that loaded it
  left out. A collection is the list of stored documents by identifier.
\<close>

record doc =
  oid :: string
  vals :: fields
  modified :: "string set"
  isNew :: bool
  excluded :: "string set"

type_synonym collection = "(string \<times> fields) list"

definition isModified :: "doc \<Rightarrow> string \<Rightarrow> bool" where
  "isModified d p \<longleftrightarrow> p \<in> modified d"

text \<open>
  Assigning a path of a document (\<open>doc.p = v\<close>): a path the schema does not declare is
  dropped (strict mode), the setters run, and the path is marked modified: always on a
  new document, on a loaded one when the value changes.
\<close>

definition set_path :: "schema \<Rightarrow> doc \<Rightarrow> string \<Rightarrow> sval \<Rightarrow> doc" where
  "set_path sch d p v =
     (case map_of (paths sch) p of
        None \<Rightarrow> d
      | Some opts \<Rightarrow>
          let v' = apply_setters opts v in
          if \<not> isNew d \<and> vals d p = Some v' then d
          else d\<lparr>vals := (vals d)(p \<mapsto> v'), modified := insert p (modified d)\<rparr>)"

definition defaults_of :: "schema \<Rightarrow> fields" where
  "defaults_of sch = (\<lambda>p. case map_of (paths sch) p of Some opts \<Rightarrow> pdefault opts | None \<Rightarrow> None)"

text \<open>\<open>new Model(input)\<close>: the defaults, then the given values in their order.\<close>

definition new_doc :: "schema \<Rightarrow> string \<Rightarrow> (string \<times> sval) list \<Rightarrow> doc" where
  "new_doc sch i input =
     foldl (\<lambda>d (p, v). set_path sch d p v)
       \<lparr>oid = i, vals = defaults_of sch, modified = {}, isNew = True, excluded = {}\<rparr> input"

text \<open>
  Validation before a save runs on the paths of the document that were loaded or
  modified: a path the query left out and nobody assigned is skipped.
\<close>

definition validate_doc :: "schema \<Rightarrow> doc \<Rightarrow> verror list" where
  "validate_doc sch d =
     filter (\<lambda>(p, k). p \<notin> excluded d \<or> p \<in> modified d) (validate sch (vals d))"

text \<open>
  The option \<open>timestamps\<close>: a new document gets \<open>createdAt\<close> and \<open>updatedAt\<close>, a
  modified one a new \<open>updatedAt\<close>.
\<close>

definition apply_timestamps :: "schema \<Rightarrow> int \<Rightarrow> doc \<Rightarrow> doc" where
  "apply_timestamps sch now d =
     (if \<not> timestamps sch then d
      else if isNew d then
        d\<lparr>vals := (vals d)(''createdAt'' \<mapsto> Date now, ''updatedAt'' \<mapsto> Date now),
          modified := insert ''createdAt'' (insert ''updatedAt'' (modified d))\<rparr>
      else if modified d \<noteq> {} then
        d\<lparr>vals := (vals d)(''updatedAt'' \<mapsto> Date now),
          modified := insert ''updatedAt'' (modified d)\<rparr>
      else d)"

text \<open>
  The write of a save. A new document is inserted whole; an existing one is updated in
  its modified paths only. A unique index refuses a value another stored document has.
\<close>

definition unique_paths :: "schema \<Rightarrow> string list" where
  "unique_paths sch = map fst (filter (\<lambda>(p, opts). unique opts) (paths sch))"

definition unique_conflict :: "schema \<Rightarrow> string list \<Rightarrow> string \<Rightarrow> fields \<Rightarrow> collection \<Rightarrow> string option" where
  "unique_conflict sch ps i f coll =
     find (\<lambda>p. \<exists>(j, g) \<in> set coll. j \<noteq> i \<and> g p = f p) (filter (\<lambda>p. p \<in> set ps) (unique_paths sch))"

definition write_doc :: "schema \<Rightarrow> doc \<Rightarrow> collection \<Rightarrow> error + collection" where
  "write_doc sch d coll =
     (if isNew d then
        (if oid d \<in> fst ` set coll then Inl (DuplicateKey ''_id'')
         else case unique_conflict sch (unique_paths sch) (oid d) (vals d) coll of
                Some p \<Rightarrow> Inl (DuplicateKey p)
              | None \<Rightarrow> Inr (coll @ [(oid d, vals d)]))
      else
        (case map_of coll (oid d) of
           None \<Rightarrow> Inl DocumentNotFound
         | Some old \<Rightarrow>
             let new = (\<lambda>p. if p \<in> modified d then vals d p else old p) in
             (case unique_conflict sch (filter (\<lambda>p. p \<in> modified d) (unique_paths sch))
                     (oid d) new coll of
                Some p \<Rightarrow> Inl (DuplicateKey p)
              | None \<Rightarrow> Inr (map (\<lambda>(j, g). if j = oid d then (j, new) else (j, g)) coll))))"

text \<open>
  \<open>doc.save()\<close> of a model with one pre-save hook: validation, timestamps, the hook,
  the write. It returns the saved document or the error, the collection, and the calls of
  bcrypt that were made.
\<close>

definition save ::
  "schema \<Rightarrow> (doc \<Rightarrow> bcrypt_call list \<times> (error + doc)) \<Rightarrow> int \<Rightarrow> doc \<Rightarrow> collection
     \<Rightarrow> (error + doc) \<times> collection \<times> bcrypt_call list" where
  "save sch hook now d coll =
     (case validate_doc sch d of
        e # es \<Rightarrow> (Inl (ValidationError (e # es)), coll, [])
      | [] \<Rightarrow>
          (case hook (apply_timestamps sch now d) of
             (calls, Inl err) \<Rightarrow> (Inl err, coll, calls)
           | (calls, Inr d') \<Rightarrow>
               (case write_doc sch d' coll of
                  Inl err \<Rightarrow> (Inl err, coll, calls)
                | Inr coll' \<Rightarrow> (Inr (d'\<lparr>modified := {}, isNew := False\<rparr>), coll', calls))))"

text \<open>Queries: the default projection leaves out the paths declared \<open>select: false\<close>;
  \<open>.select('+p')\<close> asks for such a path.\<close>

datatype selection = SelectDefault | SelectPlus "string list"

definition is_selected :: "schema \<Rightarrow> selection \<Rightarrow> string \<Rightarrow> bool" where
  "is_selected sch sel p =
     (case map_of (paths sch) p of
        None \<Rightarrow> True
      | Some opts \<Rightarrow> pselect opts \<or> (case sel of SelectPlus ps \<Rightarrow> p \<in> set ps | SelectDefault \<Rightarrow> False))"

definition hydrate :: "schema \<Rightarrow> selection \<Rightarrow> string \<times> fields \<Rightarrow> doc" where
  "hydrate sch sel s =
     \<lparr>oid = fst s,
      vals = (\<lambda>p. if is_selected sch sel p then snd s p else None),
      modified = {}, isNew = False,
      excluded = set (filter (\<lambda>p. \<not> is_selected sch sel p) (map fst (paths sch)))\<rparr>"

definition findById :: "schema \<Rightarrow> selection \<Rightarrow> string \<Rightarrow> collection \<Rightarrow> doc option" where
  "findById sch sel i coll = map_option (\<lambda>f. hydrate sch sel (i, f)) (map_of coll i)"

definition findOne :: "schema \<Rightarrow> selection \<Rightarrow> string \<Rightarrow> sval \<Rightarrow> collection \<Rightarrow> doc option" where
  "findOne sch sel p v coll = map_option (hydrate sch sel) (find (\<lambda>(j, g). g p = Some v) coll)"

text \<open>
  The pre-save hook of \<open>userSchema\<close>. A password that is not a string makes
  \<open>bcrypt.hash\<close> reject.
\<close>

definition pre_save :: "bcrypt \<Rightarrow> doc \<Rightarrow> bcrypt_call list \<times> (error + doc)" where
  "pre_save bc d =
     (if \<not> isModified d ''password'' then ([], Inr d)
      else
        (case genSalt bc 12 of
           Inl e \<Rightarrow> ([GenSalt 12], Inl e)
         | Inr salt \<Rightarrow>
             (case vals d ''password'' of
                Some (Str p) \<Rightarrow>
                  (case hash bc p salt of
                     Inl e \<Rightarrow> ([GenSalt 12, Hash p salt], Inl e)
                   | Inr h \<Rightarrow>
                       ([GenSalt 12, Hash p salt],
                        Inr (set_path userSchema d ''password'' (Str h))))
              | _ \<Rightarrow> ([GenSalt 12], Inl IllegalArguments))))"

text \<open>\<open>userSchema.methods.matchPassword\<close>: \<open>bcrypt.compare\<close> rejects a stored value that
  is not a string, as an absent one.\<close>

definition matchPassword :: "bcrypt \<Rightarrow> doc \<Rightarrow> string \<Rightarrow> error + bool" where
  "matchPassword bc d candidatePassword =
     (case vals d ''password'' of
        Some (Str h) \<Rightarrow> compare bc candidatePassword h
      | _ \<Rightarrow> Inl IllegalArguments)"

text \<open>The model \<open>User\<close>: saving a document, and \<open>User.create\<close>.\<close>

definition User_save ::
  "bcrypt \<Rightarrow> int \<Rightarrow> doc \<Rightarrow> collection \<Rightarrow> (error + doc) \<times> collection \<times> bcrypt_call list" where
  "User_save bc now d coll = save userSchema (pre_save bc) now d coll"

definition User_create ::
  "bcrypt \<Rightarrow> int \<Rightarrow> string \<Rightarrow> (string \<times> sval) list \<Rightarrow> collection
     \<Rightarrow> (error + doc) \<times> collection \<times> bcrypt_call list" where
  "User_create bc now i input coll = User_save bc now (new_doc userSchema i input) coll"

text \<open>
  Modelled from the spec: the handler of \<open>POST /api/users\<close> (the user routes and their
  controller are not in the repository excerpt). It creates a User from the \<open>name\<close>,
  \<open>email\<close> and \<open>password\<close> of the request body.
\<close>

definition registerUser ::
  "bcrypt \<Rightarrow> int \<Rightarrow> string \<Rightarrow> fields \<Rightarrow> collection
     \<Rightarrow> (error + doc) \<times> collection \<times> bcrypt_call list" where
  "registerUser bc now i body coll =
     User_create bc now i
       (List.map_filter (\<lambda>p. map_option (Pair p) (body p)) [''name'', ''email'', ''password''])
       coll"



text \<open>The number of calls of \<open>bcrypt.hash\<close> in a list of calls.\<close>

definition hashes :: "bcrypt_call list \<Rightarrow> nat" where
  "hashes cs = length (filter (\<lambda>c. case c of Hash p s \<Rightarrow> True | GenSalt n \<Rightarrow> False) cs)"

text \<open>The values of the document that the example of the spec creates.\<close>

definition ada_vals :: fields where
  "ada_vals = (defaults_of userSchema)(''name'' \<mapsto> Str ''Ada'', ''email'' \<mapsto> Str ''ada@x.com'',
      ''password'' \<mapsto> Str ''longenough1'')"


section \<open>The Order model\<close>

text \<open>
  \<open>orderSchema\<close>, as declared. The paths of the nested objects \<open>shippingAddress\<close> and
  \<open>paymentResult\<close> are written with their dotted names, as Mongoose keeps them; the
  elements of the array \<open>orderItems\<close> are subdocuments with a schema of their own.
\<close>

definition orderItemSchema :: schema where
  "orderItemSchema = \<lparr>paths =
     [(''name'', (path_of TString)\<lparr>required := True\<rparr>),
      (''qty'', (path_of TNumber)\<lparr>required := True\<rparr>),
      (''image'', (path_of TString)\<lparr>required := True\<rparr>),
      (''price'', (path_of TNumber)\<lparr>required := True\<rparr>),
      (''product'', (path_of TObjectId)\<lparr>required := True, ref := Some ''Product''\<rparr>)],
     timestamps = False\<rparr>"

definition orderSchema :: schema where
  "orderSchema = \<lparr>paths =
     [(''user'', (path_of TObjectId)\<lparr>required := True, ref := Some ''User''\<rparr>),
      (''shippingAddress.address'', (path_of TString)\<lparr>required := True\<rparr>),
      (''shippingAddress.city'', (path_of TString)\<lparr>required := True\<rparr>),
      (''shippingAddress.postalCode'', (path_of TString)\<lparr>required := True\<rparr>),
      (''shippingAddress.country'', (path_of TString)\<lparr>required := True\<rparr>),
      (''paymentMethod'', (path_of TString)\<lparr>required := True\<rparr>),
      (''paymentResult.id'', path_of TString),
      (''paymentResult.status'', path_of TString),
      (''paymentResult.update_time'', path_of TString),
      (''paymentResult.email_address'', path_of TString),
      (''itemsPrice'', (path_of TNumber)\<lparr>required := True, pdefault := Some (Num 0)\<rparr>),
      (''taxPrice'', (path_of TNumber)\<lparr>required := True, pdefault := Some (Num 0)\<rparr>),
      (''shippingPrice'', (path_of TNumber)\<lparr>required := True, pdefault := Some (Num 0)\<rparr>),
      (''totalPrice'', (path_of TNumber)\<lparr>required := True, pdefault := Some (Num 0)\<rparr>),
      (''isPaid'', (path_of TBoolean)\<lparr>required := True, pdefault := Some (Bool False)\<rparr>),
      (''paidAt'', path_of TDate),
      (''isDelivered'', (path_of TBoolean)\<lparr>required := True, pdefault := Some (Bool False)\<rparr>),
      (''deliveredAt'', path_of TDate)],
     timestamps = True\<rparr>"

text \<open>An order document: its own paths and the subdocuments of \<open>orderItems\<close>. The errors
  of an item are reported with the path inside the item.\<close>

record order =
  ofields :: fields
  orderItems :: "fields list"

definition validate_order :: "order \<Rightarrow> verror list" where
  "validate_order od =
     validate orderSchema (ofields od) @ concat (map (validate orderItemSchema) (orderItems od))"


section \<open>Requests, route guards and the product routes\<close>

text \<open>
  A request is its method, the segments of its path (\<open>/api/products/\<close> is
  \<open>[''api'', ''products'']\<close>; Express compares them without regard to case and to a
  trailing slash), its body and its auth credential. A router fills in the path
  parameters, the guard \<open>protect\<close> the authenticated identity. Of the body the server
  looks at the content type and, for a JSON or a URL-encoded body, at whether its parser
  accepts it (\<open>True\<close>) or fails on it (\<open>False\<close>: not well-formed, too large, ...).
\<close>

datatype verb = GET | HEAD | POST | PUT | DELETE | PATCH | OPTIONS

datatype payload = NoBody | JsonBody bool | FormBody bool | OtherBody

record identity =
  role :: string

record request =
  rmethod :: verb
  rpath :: "string list"
  payload :: payload
  credential :: "string option"
  params :: "(string \<times> string) list"
  user :: "identity option"

text \<open>The kinds of error of the spec, and the responses the server can give. The body of
  an error response is made by the error middleware alone.\<close>

datatype api_error = ValidationFailed | Malformed | NotFound | Unauthorized | Unexpected

datatype response =
    HealthJson
  | Preflight
  | StaticFile "string list"
  | DevRootText
  | Answer string
  | ErrorJson api_error
  | Finalhandler "api_error option"

text \<open>
  What the server is started with, and the parts of the repository that the files at
  hand import but do not contain: the value of \<open>NODE_ENV\<close>; the files that exist
  for the static middleware and for \<open>res.sendFile\<close>; the routers of users, orders, upload and config (by name; \<open>None\<close>
  when no route of the router answers); the controller functions of the product routes
  (by name); how a credential is verified; which identifiers are well-formed. \<open>'st\<close> is
  the state of the database.
\<close>

record 'st env =
  NODE_ENV :: "string option"
  static_file :: "string list \<Rightarrow> bool"
  external :: "string \<Rightarrow> request \<Rightarrow> 'st \<Rightarrow> (response \<times> 'st) option"
  controller :: "string \<Rightarrow> request \<Rightarrow> 'st \<Rightarrow> response \<times> 'st"
  authenticate :: "string \<Rightarrow> identity option"
  valid_id :: "string \<Rightarrow> bool"

text \<open>
  Modelled from the spec: the guards of \<open>middleware/authMiddleware.js\<close> and
  \<open>middleware/checkObjectId.js\<close>, whose source is not in the excerpt. \<open>protect\<close>
  rejects a request without a valid credential and otherwise records the identity;
  \<open>admin\<close> rejects a request whose identity lacks the admin role; \<open>checkObjectId\<close>
  rejects a request whose \<open>id\<close> parameter is not a well-formed identifier. A guard
  either passes the request on (\<open>next()\<close>) or ends it with an error.
\<close>

definition protect :: "'st env \<Rightarrow> request \<Rightarrow> api_error + request" where
  "protect e req =
     (case credential req of
        None \<Rightarrow> Inl Unauthorized
      | Some t \<Rightarrow> (case authenticate e t of
                    None \<Rightarrow> Inl Unauthorized
                  | Some u \<Rightarrow> Inr (req\<lparr>user := Some u\<rparr>)))"

definition admin :: "'st env \<Rightarrow> request \<Rightarrow> api_error + request" where
  "admin e req =
     (case user req of
        None \<Rightarrow> Inl Unauthorized
      | Some u \<Rightarrow> if role u = ''admin'' then Inr req else Inl Unauthorized)"

definition checkObjectId :: "'st env \<Rightarrow> request \<Rightarrow> api_error + request" where
  "checkObjectId e req =
     (case map_of (params req) ''id'' of
        None \<Rightarrow> Inl NotFound
      | Some v \<Rightarrow> if valid_id e v then Inr req else Inl NotFound)"

datatype guard = Protect | Admin | CheckObjectId

fun run_guard :: "'st env \<Rightarrow> guard \<Rightarrow> request \<Rightarrow> api_error + request" where
  "run_guard e Protect req = protect e req"
| "run_guard e Admin req = admin e req"
| "run_guard e CheckObjectId req = checkObjectId e req"

text \<open>The functions a request went through, in order.\<close>

datatype call = Guard guard | Handler string

text \<open>The guards of a route run from left to right; the first that rejects ends the chain.\<close>

fun run_guards :: "'st env \<Rightarrow> guard list \<Rightarrow> request \<Rightarrow> call list \<times> (api_error + request)" where
  "run_guards e [] req = ([], Inr req)"
| "run_guards e (g # gs) req =
     (case run_guard e g req of
        Inl err \<Rightarrow> ([Guard g], Inl err)
      | Inr req' \<Rightarrow> (case run_guards e gs req' of (cs, r) \<Rightarrow> (Guard g # cs, r)))"

text \<open>A route: method, path pattern (literal segments and \<open>:name\<close> parameters), guards,
  and the name of its handler.\<close>

datatype seg = Lit string | Param string

record route =
  rmeth :: verb
  pattern :: "seg list"
  guards :: "guard list"
  handler :: string

definition seg_eq :: "string \<Rightarrow> string \<Rightarrow> bool" where
  "seg_eq a b \<longleftrightarrow> toLowerCase a = toLowerCase b"

fun match_pattern :: "seg list \<Rightarrow> string list \<Rightarrow> (string \<times> string) list option" where
  "match_pattern [] [] = Some []"
| "match_pattern (Lit s # ps) (x # xs) = (if seg_eq s x then match_pattern ps xs else None)"
| "match_pattern (Param n # ps) (x # xs) = map_option ((#) (n, x)) (match_pattern ps xs)"
| "match_pattern ps xs = None"

text \<open>A route declared with \<open>get\<close> also answers \<open>HEAD\<close>.\<close>

definition handles_method :: "route \<Rightarrow> verb \<Rightarrow> bool" where
  "handles_method r m \<longleftrightarrow> rmeth r = m \<or> (m = HEAD \<and> rmeth r = GET)"

text \<open>\<open>routes/productRoutes.js\<close>, route by route in the order of the file.\<close>

definition productRoutes :: "route list" where
  "productRoutes =
     [\<lparr>rmeth = GET, pattern = [], guards = [], handler = ''getProducts''\<rparr>,
      \<lparr>rmeth = POST, pattern = [], guards = [Protect, Admin], handler = ''createProduct''\<rparr>,
      \<lparr>rmeth = GET, pattern = [Lit ''top''], guards = [], handler = ''getTopProducts''\<rparr>,
      \<lparr>rmeth = GET, pattern = [Param ''id''], guards = [CheckObjectId],
        handler = ''getProductById''\<rparr>,
      \<lparr>rmeth = PUT, pattern = [Param ''id''], guards = [Protect, Admin, CheckObjectId],
        handler = ''updateProduct''\<rparr>,
      \<lparr>rmeth = DELETE, pattern = [Param ''id''], guards = [Protect, Admin, CheckObjectId],
        handler = ''deleteProduct''\<rparr>,
      \<lparr>rmeth = POST, pattern = [Param ''id'', Lit ''reviews''], guards = [Protect, CheckObjectId],
        handler = ''createProductReview''\<rparr>]"

text \<open>
  What a layer of the application does with a request: it answers, it passes the request
  on, or it fails, and the error goes to the error middleware.
\<close>

datatype 'st outcome = Respond response 'st "call list" | Next | Raise api_error "call list"

text \<open>A router runs the first of its routes that matches the rest of the path and the
  method; the handler of a route answers. No route: the request goes on.\<close>

fun first_route :: "route list \<Rightarrow> verb \<Rightarrow> string list \<Rightarrow> (route \<times> (string \<times> string) list) option" where
  "first_route [] m sub = None"
| "first_route (r # rs) m sub =
     (case (if handles_method r m then match_pattern (pattern r) sub else None) of
        Some ps \<Rightarrow> Some (r, ps)
      | None \<Rightarrow> first_route rs m sub)"

definition run_router :: "'st env \<Rightarrow> route list \<Rightarrow> string list \<Rightarrow> request \<Rightarrow> 'st \<Rightarrow> 'st outcome" where
  "run_router e rs sub req st =
     (case first_route rs (rmethod req) sub of
        None \<Rightarrow> Next
      | Some (r, ps) \<Rightarrow>
          (case run_guards e (guards r) (req\<lparr>params := ps\<rparr>) of
             (cs, Inl err) \<Rightarrow> Raise err cs
           | (cs, Inr req') \<Rightarrow>
               (case controller e (handler r) req' st of
                  (resp, st') \<Rightarrow> Respond resp st' (cs @ [Handler (handler r)]))))"


section \<open>The application\<close>

text \<open>
  \<open>server.js\<close> builds the application as a stack of layers; a request goes down the
  stack. The mount path of a layer is the list of its segments; \<open>GetAny file\<close> is
  \<open>app.get('*', ...)\<close> with a handler that sends the file.
\<close>

datatype layer =
    Use_cors
  | Use_json
  | Use_urlencoded
  | Use_morgan
  | Get "string list" response
  | GetAny "string list"
  | Router "string list" "route list"
  | External "string list" string
  | Static "string list" "string list"
  | Use_notFound
  | Use_errorHandler

text \<open>The rest of a path under a mount path, if the path lies under it.\<close>

fun under :: "string list \<Rightarrow> string list \<Rightarrow> string list option" where
  "under [] xs = Some xs"
| "under (m # ms) [] = None"
| "under (m # ms) (x # xs) = (if seg_eq m x then under ms xs else None)"

definition reads :: "verb \<Rightarrow> bool" where
  "reads m \<longleftrightarrow> m = GET \<or> m = HEAD"

text \<open>
  Modelled from the spec: \<open>notFound\<close> and \<open>errorHandler\<close> of
  \<open>middleware/errorMiddleware.js\<close>, whose source is not in the repository excerpt.
  \<open>notFound\<close> fails every request that reaches it with the not-found error;
  \<open>errorHandler\<close> answers an error with its JSON body.
\<close>

definition notFound :: "request \<Rightarrow> api_error" where
  "notFound req = NotFound"

definition errorHandler :: "api_error \<Rightarrow> response" where
  "errorHandler err = ErrorJson err"

text \<open>
  One layer. \<open>cors()\<close> answers every preflight (\<open>OPTIONS\<close>) request itself. A body
  parser fails on a body of its content type that it does not accept, and passes every
  other request on; the logger passes the request on. \<open>app.get\<close> answers \<open>GET\<close> and
  \<open>HEAD\<close> on its path; the catch-all sends its file, and fails when the file does not
  exist. The static middleware answers \<open>GET\<close> and \<open>HEAD\<close> for a file that exists and
  passes every other request on.
\<close>

fun step :: "'st env \<Rightarrow> layer \<Rightarrow> request \<Rightarrow> 'st \<Rightarrow> 'st outcome" where
  "step e Use_cors req st = (if rmethod req = OPTIONS then Respond Preflight st [] else Next)"
| "step e Use_json req st = (if payload req = JsonBody False then Raise Malformed [] else Next)"
| "step e Use_urlencoded req st =
     (if payload req = FormBody False then Raise Malformed [] else Next)"
| "step e Use_morgan req st = Next"
| "step e (Get p resp) req st =
     (if reads (rmethod req) \<and> under p (rpath req) = Some [] then Respond resp st [] else Next)"
| "step e (GetAny file) req st =
     (if reads (rmethod req)
      then (if static_file e file then Respond (StaticFile file) st [] else Raise Unexpected [])
      else Next)"
| "step e (Router p rs) req st =
     (case under p (rpath req) of None \<Rightarrow> Next | Some sub \<Rightarrow> run_router e rs sub req st)"
| "step e (External p name) req st =
     (case under p (rpath req) of
        None \<Rightarrow> Next
      | Some sub \<Rightarrow> (case external e name (req\<lparr>rpath := sub\<rparr>) st of
                      None \<Rightarrow> Next
                    | Some (resp, st') \<Rightarrow> Respond resp st' [Handler name]))"
| "step e (Static p dir) req st =
     (case under p (rpath req) of
        None \<Rightarrow> Next
      | Some sub \<Rightarrow> if reads (rmethod req) \<and> static_file e (dir @ sub)
                    then Respond (StaticFile (dir @ sub)) st [] else Next)"
| "step e Use_notFound req st = Raise (notFound req) []"
| "step e Use_errorHandler req st = Next"

text \<open>
  An error skips the layers up to the error middleware. Below the last layer Express's
  own final handler answers.
\<close>

fun on_error :: "layer list \<Rightarrow> api_error \<Rightarrow> response" where
  "on_error [] err = Finalhandler (Some err)"
| "on_error (Use_errorHandler # ls) err = errorHandler err"
| "on_error (l # ls) err = on_error ls err"

fun run_layers :: "'st env \<Rightarrow> layer list \<Rightarrow> request \<Rightarrow> 'st \<Rightarrow> response \<times> 'st \<times> call list" where
  "run_layers e [] req st = (Finalhandler None, st, [])"
| "run_layers e (l # ls) req st =
     (case step e l req st of
        Respond resp st' cs \<Rightarrow> (resp, st', cs)
      | Next \<Rightarrow> run_layers e ls req st
      | Raise err cs \<Rightarrow> (on_error ls err, st, cs))"

text \<open>The stack of \<open>server.js\<close>, in the order of the file: the middleware, the routes
  and routers, and the part that depends on \<open>NODE_ENV\<close>.\<close>

definition middleware :: "'st env \<Rightarrow> layer list" where
  "middleware e =
     [Use_cors, Use_json, Use_urlencoded]
     @ (if NODE_ENV e = Some ''development'' then [Use_morgan] else [])"

definition api_routes :: "layer list" where
  "api_routes =
     [Get [''api''] HealthJson,
      Router [''api'', ''products''] productRoutes,
      External [''api'', ''users''] ''userRoutes'',
      External [''api'', ''orders''] ''orderRoutes'',
      External [''api'', ''upload''] ''uploadRoutes'',
      External [''api'', ''config''] ''configRoutes'',
      Static [''uploads''] [''uploads'']]"

definition frontend :: "'st env \<Rightarrow> layer list" where
  "frontend e =
     (if NODE_ENV e = Some ''production''
      then [Static [] [''frontend'', ''build''],
            GetAny [''frontend'', ''build'', ''index.html'']]
      else [Get [] DevRootText])"

definition app :: "'st env \<Rightarrow> layer list" where
  "app e = middleware e @ api_routes @ frontend e @ [Use_notFound, Use_errorHandler]"

definition handle :: "'st env \<Rightarrow> request \<Rightarrow> 'st \<Rightarrow> response \<times> 'st \<times> call list" where
  "handle e req st = run_layers e (app e) req st"

text \<open>
  The real routes: the routes, routers and static directories, without the catch-all
  \<open>GetAny\<close>. A request matches no real route when each of them passes it on.
\<close>

definition real_routes :: "'st env \<Rightarrow> layer list" where
  "real_routes e =
     api_routes @ filter (\<lambda>l. case l of GetAny file \<Rightarrow> False | _ \<Rightarrow> True) (frontend e)"

definition unmatched :: "'st env \<Rightarrow> request \<Rightarrow> 'st \<Rightarrow> bool" where
  "unmatched e req st \<longleftrightarrow> list_all (\<lambda>l. step e l req st = Next) (real_routes e)"

definition api_path :: "request \<Rightarrow> bool" where
  "api_path req \<longleftrightarrow> under [''api''] (rpath req) \<noteq> None"

text \<open>Whether the body parsers let a request through.\<close>

definition body_accepted :: "request \<Rightarrow> bool" where
  "body_accepted req \<longleftrightarrow> payload req \<noteq> JsonBody False \<and> payload req \<noteq> FormBody False"

text \<open>Whether the credential of a request is valid and its identity has the admin role.\<close>

definition admin_credential :: "'st env \<Rightarrow> request \<Rightarrow> bool" where
  "admin_credential e req =
     (case credential req of
        None \<Rightarrow> False
      | Some t \<Rightarrow> (case authenticate e t of None \<Rightarrow> False | Some u \<Rightarrow> role u = ''admin''))"


section \<open>The pattern: proofs\<close>

lemma nullable_lang: "nullable r \<longleftrightarrow> [] \<in> lang r"
  by (induction r) (auto simp: conc_def intro: star.star_nil)

lemma conc_split: "w \<in> conc A B \<Longrightarrow> \<exists>xs ys. w = xs @ ys \<and> xs \<in> A \<and> ys \<in> B"
  by (auto simp: conc_def)

lemma conc_cons_iff:
  "c # w \<in> conc A B \<longleftrightarrow>
     ([] \<in> A \<and> c # w \<in> B) \<or> (\<exists>u v. w = u @ v \<and> c # u \<in> A \<and> v \<in> B)"
proof
  assume "c # w \<in> conc A B"
  then obtain xs ys where s: "c # w = xs @ ys" "xs \<in> A" "ys \<in> B"
    using conc_split by blast
  show "([] \<in> A \<and> c # w \<in> B) \<or> (\<exists>u v. w = u @ v \<and> c # u \<in> A \<and> v \<in> B)"
  proof (cases xs)
    case Nil
    with s show ?thesis by simp
  next
    case (Cons x xs')
    with s have "w = xs' @ ys" "c # xs' \<in> A" by simp_all
    with s(3) show ?thesis by blast
  qed
next
  assume "([] \<in> A \<and> c # w \<in> B) \<or> (\<exists>u v. w = u @ v \<and> c # u \<in> A \<and> v \<in> B)"
  then show "c # w \<in> conc A B"
  proof
    assume "[] \<in> A \<and> c # w \<in> B"
    then have "[] @ (c # w) \<in> conc A B" unfolding conc_def by blast
    then show ?thesis by simp
  next
    assume "\<exists>u v. w = u @ v \<and> c # u \<in> A \<and> v \<in> B"
    then obtain u v where "w = u @ v" "c # u \<in> A" "v \<in> B" by blast
    then have "(c # u) @ v \<in> conc A B" unfolding conc_def by blast
    with \<open>w = u @ v\<close> show ?thesis by simp
  qed
qed

lemma star_cons_split:
  "w \<in> star A \<Longrightarrow> w = c # t \<Longrightarrow> \<exists>u v. t = u @ v \<and> c # u \<in> A \<and> v \<in> star A"
proof (induction arbitrary: t rule: star.induct)
  case star_nil
  then show ?case by simp
next
  case (star_app xs ys)
  show ?case
  proof (cases xs)
    case Nil
    with star_app show ?thesis by simp
  next
    case (Cons x xs')
    with star_app.prems have "t = xs' @ ys" "x = c" by simp_all
    with Cons star_app.hyps show ?thesis by blast
  qed
qed

lemma star_cons_iff:
  "c # w \<in> star A \<longleftrightarrow> (\<exists>u v. w = u @ v \<and> c # u \<in> A \<and> v \<in> star A)"
proof
  assume "c # w \<in> star A"
  then show "\<exists>u v. w = u @ v \<and> c # u \<in> A \<and> v \<in> star A"
    using star_cons_split by blast
next
  assume "\<exists>u v. w = u @ v \<and> c # u \<in> A \<and> v \<in> star A"
  then obtain u v where "w = u @ v" "c # u \<in> A" "v \<in> star A" by blast
  then have "(c # u) @ v \<in> star A" by (blast intro: star.star_app)
  with \<open>w = u @ v\<close> show "c # w \<in> star A" by simp
qed

lemma deriv_lang: "w \<in> lang (deriv c r) \<longleftrightarrow> c # w \<in> lang r"
proof (induction r arbitrary: w)
  case (Seq r s)
  then show ?case
    by (auto simp: conc_cons_iff nullable_lang) (auto simp: conc_def)
next
  case (Star r)
  then show ?case
    by (auto simp: star_cons_iff conc_def)
qed auto

lemma test_iff_lang: "test r w \<longleftrightarrow> w \<in> lang r"
  by (induction w arbitrary: r) (simp_all add: nullable_lang deriv_lang)

lemma star_last:
  "ys \<in> star A \<Longrightarrow> ys \<noteq> [] \<Longrightarrow> \<exists>pre z. ys = pre @ z \<and> z \<in> A"
proof (induction rule: star.induct)
  case star_nil
  then show ?case by simp
next
  case (star_app xs ys)
  show ?case
  proof (cases "ys = []")
    case True
    with star_app.hyps(1) have "xs @ ys = [] @ xs \<and> xs \<in> A" by simp
    then show ?thesis by blast
  next
    case False
    with star_app.IH obtain pre z where "ys = pre @ z" "z \<in> A" by blast
    then have "xs @ ys = (xs @ pre) @ z \<and> z \<in> A" by simp
    then show ?thesis by blast
  qed
qed

lemma plus_last:
  assumes "w \<in> lang (Plus r)"
  shows "\<exists>pre z. w = pre @ z \<and> z \<in> lang r"
proof -
  from assms obtain a y where w: "w = a @ y" "a \<in> lang r" "y \<in> star (lang r)"
    by (auto simp: Plus_def conc_def)
  show ?thesis
  proof (cases "y = []")
    case True
    with w have "w = [] @ a \<and> a \<in> lang r" by simp
    then show ?thesis by blast
  next
    case False
    with w(3) obtain pre z where "y = pre @ z" "z \<in> lang r"
      using star_last by blast
    with w(1) have "w = (a @ pre) @ z \<and> z \<in> lang r" by simp
    then show ?thesis by blast
  qed
qed

lemma rep_2_3_word:
  assumes "x \<in> lang (Rep 2 3 (Cls Word))"
  shows "(length x = 2 \<or> length x = 3) \<and> list_all word_char x"
proof -
  have r: "Rep 2 3 (Cls Word)
      = Seq (Cls Word) (Seq (Cls Word) (Opt (Seq (Cls Word) Epsilon)))"
    by (simp add: eval_nat_numeral)
  from assms show ?thesis
    unfolding r by (auto simp: conc_def Opt_def)
qed

lemma word_char_not_dot: "word_char c \<Longrightarrow> c \<noteq> CHR ''.''"
  by (auto simp: word_char_def)

lemma final_label_app:
  assumes "list_all word_char lab"
  shows "final_label (pre @ CHR ''.'' # lab) = lab"
proof -
  have "\<forall>c\<in>set (rev lab). c \<noteq> CHR ''.''"
    using assms word_char_not_dot by (auto simp: list_all_iff)
  then have "takeWhile (\<lambda>c. c \<noteq> CHR ''.'') (rev lab @ CHR ''.'' # rev pre) = rev lab"
    by (simp add: takeWhile_tail)
  then show ?thesis by (simp add: final_label_def)
qed

lemma email_re_tail:
  assumes "s \<in> lang email_re"
  shows "\<exists>pre lab. s = pre @ CHR ''.'' # lab \<and> lab \<in> lang (Rep 2 3 (Cls Word))"
proof -
  let ?P = "Plus (Seq (Cls (Single CHR ''.'')) (Rep 2 3 (Cls Word)))"
  have "s \<in> conc (lang email_part)
            (conc (lang (Cls (Single CHR ''@''))) (conc (lang email_part) (lang ?P)))"
    using assms unfolding email_re_def by (simp only: lang.simps)
  then obtain a r1 where 1: "s = a @ r1"
      "r1 \<in> conc (lang (Cls (Single CHR ''@''))) (conc (lang email_part) (lang ?P))"
    using conc_split by blast
  then obtain b r2 where 2: "r1 = b @ r2" "r2 \<in> conc (lang email_part) (lang ?P)"
    using conc_split by blast
  then obtain c q where 3: "r2 = c @ q" "q \<in> lang ?P"
    using conc_split by blast
  from plus_last [OF 3(2)] obtain pre z where z: "q = pre @ z"
      "z \<in> lang (Seq (Cls (Single CHR ''.'')) (Rep 2 3 (Cls Word)))" by blast
  from z(2) have "z \<in> conc (lang (Cls (Single CHR ''.''))) (lang (Rep 2 3 (Cls Word)))"
    by (simp only: lang.simps)
  then obtain d lab where d: "z = d @ lab" "d \<in> lang (Cls (Single CHR ''.''))"
      "lab \<in> lang (Rep 2 3 (Cls Word))"
    using conc_split by blast
  from d(2) have "d = [CHR ''.'']" by simp
  with 1 2 3 z d have "s = (a @ b @ c @ pre) @ CHR ''.'' # lab" by simp
  with d(3) show ?thesis by blast
qed

lemma email_re_short_label: "test email_re s \<Longrightarrow> short_final_label s"
proof -
  assume "test email_re s"
  then have "s \<in> lang email_re" by (simp add: test_iff_lang)
  from email_re_tail [OF this] obtain pre lab where
    s: "s = pre @ CHR ''.'' # lab" and lab: "lab \<in> lang (Rep 2 3 (Cls Word))" by blast
  from rep_2_3_word [OF lab] have l: "length lab = 2 \<or> length lab = 3" "list_all word_char lab"
    by simp_all
  from final_label_app [OF l(2)] have "final_label s = lab" by (simp add: s)
  with l s show ?thesis by (simp add: short_final_label_def)
qed

lemma info_address_rejected: "\<not> test email_re ''user@example.info''"
  by code_simp

lemma map_filter_hit:
  "(p, opts) \<in> set ps \<Longrightarrow> g p opts = Some e
     \<Longrightarrow> e \<in> set (List.map_filter (\<lambda>(p, opts). g p opts) ps)"
  by (force simp: List.map_filter_def)

lemma validate_hit:
  assumes "(p, opts) \<in> set (paths sch)" and "validate_path opts (f p) = Some k"
  shows "(p, k) \<in> set (validate sch f)"
  unfolding validate_def
  by (rule map_filter_hit [OF assms(1)]) (simp add: assms(2))

lemma email_path:
  "(''email'', (path_of TString)\<lparr>required := True, unique := True, lowercase := True,
          ptrim := True, pmatch := Some email_re\<rparr>) \<in> set (paths userSchema)"
  by (simp add: userSchema_def)

lemma email_match_fails:
  assumes "f ''email'' = Some (Str s)" and "s \<noteq> []" and "\<not> test email_re s"
  shows "(''email'', Match) \<in> set (validate userSchema f)"
  by (rule validate_hit [OF email_path])
     (simp add: validate_path_def string_validators_def path_of_def assms)


section \<open>Documents and the User model: proofs\<close>

lemma password_path:
  "map_of (paths userSchema) ''password''
     = Some ((path_of TString)\<lparr>required := True, minlength := Some 8, pselect := False\<rparr>)"
  by (simp add: userSchema_def)

lemma set_password_vals:
  "vals (set_path userSchema d ''password'' (Str h)) = (vals d)(''password'' \<mapsto> Str h)"
  by (auto simp: set_path_def password_path apply_setters_def path_of_def Let_def)

lemma pre_save_unmodified: "\<not> isModified d ''password'' \<Longrightarrow> pre_save bc d = ([], Inr d)"
  by (simp add: pre_save_def)

lemma pre_save_modified:
  assumes "isModified d ''password''" and "genSalt bc 12 = Inr salt"
    and "vals d ''password'' = Some (Str p)" and "hash bc p salt = Inr h"
  shows "pre_save bc d
     = ([GenSalt 12, Hash p salt], Inr (set_path userSchema d ''password'' (Str h)))"
  using assms by (simp add: pre_save_def)

lemma pre_save_hashes: "hashes (fst (pre_save bc d)) \<le> 1"
  by (simp add: pre_save_def hashes_def split: sum.splits option.splits sval.splits)

lemma pre_save_hashes_iff:
  "hashes (fst (pre_save bc d)) = 1 \<Longrightarrow> isModified d ''password''"
  by (simp add: pre_save_def hashes_def split: if_splits)

lemma map_of_replace:
  "map_of (map (\<lambda>(j, g). if j = k then (j, new) else (j, g)) coll) i
     = (if i = k then map_option (\<lambda>_. new) (map_of coll i) else map_of coll i)"
  by (induction coll) auto

lemma write_doc_keeps:
  assumes "write_doc sch d coll = Inr coll'" and "p \<notin> modified d"
    and "map_of coll i = Some old"
  shows "\<exists>new. map_of coll' i = Some new \<and> new p = old p"
proof (cases "isNew d")
  case True
  with assms(1) have "coll' = coll @ [(oid d, vals d)]"
    by (auto simp: write_doc_def split: if_splits option.splits)
  with assms(3) show ?thesis by simp
next
  case False
  with assms(1) obtain old' where o: "map_of coll (oid d) = Some old'"
    and c: "coll' = map (\<lambda>(j, g). if j = oid d
        then (j, \<lambda>q. if q \<in> modified d then vals d q else old' q) else (j, g)) coll"
    by (auto simp: write_doc_def Let_def split: if_splits option.splits)
  show ?thesis
    using assms(2,3) o unfolding c map_of_replace by auto
qed

lemma timestamps_password:
  "isModified (apply_timestamps sch now d) ''password'' = isModified d ''password''"
  by (simp add: apply_timestamps_def isModified_def)

lemma save_unmodified_password:
  assumes "\<not> isModified d ''password''"
    and "User_save bc now d coll = (r, coll', calls)"
    and "map_of coll i = Some old"
  shows "calls = [] \<and> (\<exists>new. map_of coll' i = Some new \<and> new ''password'' = old ''password'')"
proof -
  let ?d = "apply_timestamps userSchema now d"
  have h: "pre_save bc ?d = ([], Inr ?d)"
    using assms(1) by (simp add: pre_save_unmodified timestamps_password)
  have m: "''password'' \<notin> modified ?d"
    using assms(1) timestamps_password [of userSchema now d] by (simp add: isModified_def)
  show ?thesis
  proof (cases "validate_doc userSchema d")
    case (Cons e es)
    with assms(2,3) show ?thesis by (simp add: User_save_def save_def)
  next
    case Nil
    show ?thesis
    proof (cases "write_doc userSchema ?d coll")
      case (Inl err)
      with Nil h assms(2,3) show ?thesis by (simp add: User_save_def save_def)
    next
      case (Inr c)
      with Nil h assms(2) have "coll' = c" "calls = []"
        by (simp_all add: User_save_def save_def)
      with write_doc_keeps [OF Inr m assms(3)] show ?thesis by simp
    qed
  qed
qed


lemma password_not_selected: "\<not> is_selected userSchema SelectDefault ''password''"
  by (simp add: is_selected_def password_path path_of_def)

lemma password_selected_plus:
  "is_selected userSchema (SelectPlus ps) ''password'' \<longleftrightarrow> ''password'' \<in> set ps"
  by (simp add: is_selected_def password_path path_of_def)

lemma other_paths_selected: "p \<noteq> ''password'' \<Longrightarrow> is_selected userSchema sel p"
  by (simp add: is_selected_def userSchema_def path_of_def)

lemma hydrate_default_password: "vals (hydrate userSchema SelectDefault s) ''password'' = None"
  by (simp add: hydrate_def password_not_selected)

lemma hydrate_plus_password:
  "''password'' \<in> set ps \<Longrightarrow> vals (hydrate userSchema (SelectPlus ps) s) ''password'' = snd s ''password''"
  by (simp add: hydrate_def password_selected_plus)

lemma hydrate_other: "p \<noteq> ''password'' \<Longrightarrow> vals (hydrate userSchema sel s) p = snd s p"
  by (simp add: hydrate_def other_paths_selected)

lemma match_absent: "vals d ''password'' = None \<Longrightarrow> matchPassword bc d c = Inl IllegalArguments"
  by (simp add: matchPassword_def)

lemma match_true_selected:
  assumes "matchPassword bc (hydrate userSchema sel s) c = Inr True"
  shows "\<exists>ps. sel = SelectPlus ps \<and> ''password'' \<in> set ps"
proof (cases sel)
  case SelectDefault
  with assms show ?thesis by (simp add: match_absent hydrate_default_password)
next
  case (SelectPlus ps)
  show ?thesis
  proof (cases "''password'' \<in> set ps")
    case True
    with SelectPlus show ?thesis by simp
  next
    case False
    then have "vals (hydrate userSchema sel s) ''password'' = None"
      by (simp add: hydrate_def SelectPlus password_selected_plus)
    with assms show ?thesis by (simp add: match_absent)
  qed
qed

lemma save_hashes: "hashes (snd (snd (User_save bc now d coll))) \<le> 1"
proof -
  obtain cs r where h: "pre_save bc (apply_timestamps userSchema now d) = (cs, r)"
    by (cases "pre_save bc (apply_timestamps userSchema now d)")
  with pre_save_hashes [of bc "apply_timestamps userSchema now d"] have "hashes cs \<le> 1"
    by simp
  then show ?thesis
    by (simp add: User_save_def save_def h hashes_def split: list.splits sum.splits)
qed

lemma findOne_default_password:
  "findOne userSchema SelectDefault p v coll = Some d \<Longrightarrow> vals d ''password'' = None"
  by (auto simp: findOne_def hydrate_default_password)

lemma set_path_excluded: "excluded (set_path sch d p v) = excluded d"
  by (simp add: set_path_def Let_def split: option.splits)

lemma set_path_isNew: "isNew (set_path sch d p v) = isNew d"
  by (simp add: set_path_def Let_def split: option.splits)

lemma foldl_set_path_excluded:
  "excluded (foldl (\<lambda>d (p, v). set_path sch d p v) d0 input) = excluded d0"
  by (induction input arbitrary: d0) (auto simp: set_path_excluded)

lemma new_doc_excluded: "excluded (new_doc sch i input) = {}"
  by (simp add: new_doc_def foldl_set_path_excluded)

lemma save_invalid:
  assumes "e \<in> set (validate_doc sch d)"
  shows "\<exists>es. save sch hook now d coll = (Inl (ValidationError es), coll, []) \<and> e \<in> set es"
proof (cases "validate_doc sch d")
  case Nil
  with assms show ?thesis by simp
next
  case (Cons x xs)
  then have "save sch hook now d coll = (Inl (ValidationError (x # xs)), coll, [])"
    by (simp add: save_def)
  with assms Cons show ?thesis by simp
qed

lemma create_bad_email:
  assumes "vals (new_doc userSchema i input) ''email'' = Some (Str s)"
    and "s \<noteq> []" and "\<not> test email_re s"
  shows "\<exists>es. User_create bc now i input coll = (Inl (ValidationError es), coll, [])
           \<and> (''email'', Match) \<in> set es"
proof -
  have "(''email'', Match) \<in> set (validate userSchema (vals (new_doc userSchema i input)))"
    using assms by (rule email_match_fails)
  then have "(''email'', Match) \<in> set (validate_doc userSchema (new_doc userSchema i input))"
    by (simp add: validate_doc_def new_doc_excluded)
  from save_invalid [OF this] show ?thesis
    by (simp add: User_create_def User_save_def)
qed

lemma ada_input:
  assumes "body ''name'' = Some (Str ''Ada'')" "body ''email'' = Some (Str ''ADA@x.com'')"
    "body ''password'' = Some (Str ''longenough1'')"
  shows "List.map_filter (\<lambda>p. map_option (Pair p) (body p)) [''name'', ''email'', ''password'']
    = [(''name'', Str ''Ada''), (''email'', Str ''ADA@x.com''), (''password'', Str ''longenough1'')]"
  using assms by (simp add: List.map_filter_def)

lemma ada_lower: "toLowerCase (trim ''ADA@x.com'') = ''ada@x.com''"
  by code_simp

lemma ada_doc:
  "new_doc userSchema i
     [(''name'', Str ''Ada''), (''email'', Str ''ADA@x.com''), (''password'', Str ''longenough1'')]
   = \<lparr>oid = i, vals = ada_vals, modified = {''name'', ''email'', ''password''}, isNew = True,
      excluded = {}\<rparr>"
  apply (simp add: new_doc_def set_path_def userSchema_def path_of_def apply_setters_def ada_lower Let_def defaults_of_def ada_vals_def)
  apply (simp add: trim_def is_space_def)
  apply auto
  done

lemma ada_valid: "validate userSchema ada_vals = []"
  unfolding ada_vals_def by code_simp


lemma ada_validate_doc:
  "validate_doc userSchema \<lparr>oid = i, vals = ada_vals,
      modified = {''name'', ''email'', ''password''}, isNew = True, excluded = {}\<rparr> = []"
  by (simp add: validate_doc_def ada_valid)

lemma unique_paths_user: "unique_paths userSchema = [''email'']"
  by (simp add: unique_paths_def userSchema_def path_of_def)

lemma user_timestamps: "timestamps userSchema"
  by (simp add: userSchema_def)

lemma timestamps_new_vals:
  "timestamps sch \<Longrightarrow> isNew d \<Longrightarrow>
     vals (apply_timestamps sch now d)
       = (vals d)(''createdAt'' \<mapsto> Date now, ''updatedAt'' \<mapsto> Date now)"
  by (simp add: apply_timestamps_def)

lemma ada_vals_at:
  "ada_vals ''email'' = Some (Str ''ada@x.com'')"
  "ada_vals ''role'' = Some (Str ''user'')"
  "ada_vals ''password'' = Some (Str ''longenough1'')"
  by (simp_all add: ada_vals_def defaults_of_def userSchema_def path_of_def)

lemma register_ada:
  assumes body: "body ''name'' = Some (Str ''Ada'')" "body ''email'' = Some (Str ''ADA@x.com'')"
      "body ''password'' = Some (Str ''longenough1'')"
    and salt: "genSalt bc 12 = Inr salt"
    and h: "hash bc ''longenough1'' salt = Inr h"
    and fresh: "i \<notin> fst ` set coll"
    and free: "\<forall>(j, g) \<in> set coll. g ''email'' \<noteq> Some (Str ''ada@x.com'')"
  shows "\<exists>d stored. registerUser bc now i body coll
           = (Inr d, coll @ [(i, stored)], [GenSalt 12, Hash ''longenough1'' salt])
         \<and> stored ''email'' = Some (Str ''ada@x.com'')
         \<and> stored ''role'' = Some (Str ''user'')
         \<and> stored ''password'' = Some (Str h)"
proof -
  let ?d0 = "\<lparr>oid = i, vals = ada_vals, modified = {''name'', ''email'', ''password''},
      isNew = True, excluded = {}\<rparr>"
  let ?d1 = "apply_timestamps userSchema now ?d0"
  let ?d2 = "set_path userSchema ?d1 ''password'' (Str h)"
  have pw: "vals ?d1 ''password'' = Some (Str ''longenough1'')"
    by (simp add: timestamps_new_vals user_timestamps ada_vals_at)
  have md: "isModified ?d1 ''password''"
    by (simp add: apply_timestamps_def isModified_def)
  have hook: "pre_save bc ?d1 = ([GenSalt 12, Hash ''longenough1'' salt], Inr ?d2)"
    using pre_save_modified [OF md salt pw h] .
  have n2: "isNew ?d2" "oid ?d2 = i"
    by (simp_all add: set_path_def Let_def apply_timestamps_def split: option.splits)
  have em: "vals ?d2 ''email'' = Some (Str ''ada@x.com'')"
    by (simp add: set_password_vals timestamps_new_vals user_timestamps ada_vals_at)
  have ro: "vals ?d2 ''role'' = Some (Str ''user'')"
    by (simp add: set_password_vals timestamps_new_vals user_timestamps ada_vals_at)
  have p2: "vals ?d2 ''password'' = Some (Str h)"
    by (simp add: set_password_vals)
  have uc: "unique_conflict userSchema (unique_paths userSchema) i (vals ?d2) coll = None"
    using free by (auto simp: unique_conflict_def unique_paths_user em)
  have w: "write_doc userSchema ?d2 coll = Inr (coll @ [(i, vals ?d2)])"
    using fresh n2 uc by (simp add: write_doc_def)
  have "registerUser bc now i body coll
      = (Inr (?d2\<lparr>modified := {}, isNew := False\<rparr>), coll @ [(i, vals ?d2)],
         [GenSalt 12, Hash ''longenough1'' salt])"
    unfolding registerUser_def ada_input [OF body] User_create_def ada_doc User_save_def save_def
    by (simp only: ada_validate_doc list.case hook prod.case sum.case w)
  with em ro p2 show ?thesis by blast
qed

lemma findById_hit:
  "map_of coll i = Some f \<Longrightarrow> findById sch sel i coll = Some (hydrate sch sel (i, f))"
  by (simp add: findById_def)













section \<open>The Order model and the application: proofs\<close>

lemma validate_nil_iff:
  "validate sch f = [] \<longleftrightarrow> (\<forall>(p, opts) \<in> set (paths sch). validate_path opts (f p) = None)"
  by (auto simp: validate_def List.map_filter_def filter_empty_conv)

lemma validate_order_drop_dates:
  assumes "validate_order od = []"
  shows "validate_order (od\<lparr>ofields := (ofields od)(''paidAt'' := None, ''deliveredAt'' := None)\<rparr>) = []"
proof -
  from assms have a: "validate orderSchema (ofields od) = []"
    and b: "concat (map (validate orderItemSchema) (orderItems od)) = []"
    by (simp_all add: validate_order_def)
  have "validate orderSchema ((ofields od)(''paidAt'' := None, ''deliveredAt'' := None)) = []"
    using a unfolding validate_nil_iff
    by (simp add: orderSchema_def) (simp add: validate_path_def path_of_def)
  with b show ?thesis by (simp add: validate_order_def)
qed

lemma paid_order_valid:
  "validate_order \<lparr>ofields = (defaults_of orderSchema)
       (''user'' \<mapsto> ObjectId ''u1'', ''shippingAddress.address'' \<mapsto> Str ''1 Main St'',
        ''shippingAddress.city'' \<mapsto> Str ''Leeds'', ''shippingAddress.postalCode'' \<mapsto> Str ''LS1'',
        ''shippingAddress.country'' \<mapsto> Str ''UK'', ''paymentMethod'' \<mapsto> Str ''Stripe'',
        ''isPaid'' \<mapsto> Bool True, ''isDelivered'' \<mapsto> Bool True),
      orderItems = [[''name'' \<mapsto> Str ''Pen'', ''qty'' \<mapsto> Num 2, ''image'' \<mapsto> Str ''/pen.png'',
        ''price'' \<mapsto> Num 3, ''product'' \<mapsto> ObjectId ''p1'']]\<rparr> = []"
  by code_simp

lemma run_layers_pass:
  "list_all (\<lambda>l. step e l req st = Next) ls \<Longrightarrow>
     run_layers e (ls @ rest) req st = run_layers e rest req st"
  by (induction ls) simp_all

lemma on_error_handler: "Use_errorHandler \<in> set ls \<Longrightarrow> on_error ls err = ErrorJson err"
  by (induction ls err rule: on_error.induct) (auto simp: errorHandler_def)

lemma middleware_pass:
  "rmethod req \<noteq> OPTIONS \<Longrightarrow> body_accepted req \<Longrightarrow>
     list_all (\<lambda>l. step e l req st = Next) (middleware e)"
  by (simp add: middleware_def body_accepted_def)

lemma middleware_malformed:
  assumes "rmethod req \<noteq> OPTIONS" and "\<not> body_accepted req"
    and "Use_errorHandler \<in> set rest"
  shows "run_layers e (middleware e @ rest) req st = (ErrorJson Malformed, st, [])"
proof (cases "payload req = JsonBody False")
  case True
  with assms(1,3) show ?thesis by (simp add: middleware_def on_error_handler)
next
  case False
  with assms(2) have "payload req = FormBody False" by (simp add: body_accepted_def)
  with assms(1,3) show ?thesis
    by (cases "NODE_ENV e = Some ''development''") (simp_all add: middleware_def on_error_handler)
qed

lemma guards_without_admin:
  assumes "\<not> admin_credential e req"
  shows "\<exists>cs. run_guards e [Protect, Admin] req = (cs, Inl Unauthorized)
           \<and> set cs \<subseteq> {Guard Protect, Guard Admin}"
  using assms
  by (auto simp: admin_credential_def protect_def admin_def split: option.splits)

lemma post_products_route:
  "first_route productRoutes POST []
     = Some (\<lparr>rmeth = POST, pattern = [], guards = [Protect, Admin], handler = ''createProduct''\<rparr>, [])"
  by (simp add: productRoutes_def handles_method_def)

lemma post_products_router:
  assumes "rmethod req = POST" and "\<not> admin_credential e req"
  shows "\<exists>cs. run_router e productRoutes [] req st = Raise Unauthorized cs
           \<and> set cs \<subseteq> {Guard Protect, Guard Admin}"
proof -
  have "\<not> admin_credential e (req\<lparr>params := []\<rparr>)"
    using assms(2) by (simp add: admin_credential_def)
  from guards_without_admin [OF this] obtain cs where
    "run_guards e [Protect, Admin] (req\<lparr>params := []\<rparr>) = (cs, Inl Unauthorized)"
    "set cs \<subseteq> {Guard Protect, Guard Admin}" by blast
  then show ?thesis
    by (simp add: run_router_def assms(1) post_products_route)
qed

lemma post_products_unauthorized:
  assumes m: "rmethod req = POST" and p: "under [''api'', ''products''] (rpath req) = Some []"
    and a: "\<not> admin_credential e req" and b: "body_accepted req"
  shows "\<exists>cs. handle e req st = (ErrorJson Unauthorized, st, cs)
           \<and> set cs \<subseteq> {Guard Protect, Guard Admin}"
proof -
  from post_products_router [OF m a] obtain cs where
    r: "run_router e productRoutes [] req st = Raise Unauthorized cs"
    and c: "set cs \<subseteq> {Guard Protect, Guard Admin}" by blast
  have o: "rmethod req \<noteq> OPTIONS" using m by simp
  have "handle e req st
      = run_layers e (api_routes @ frontend e @ [Use_notFound, Use_errorHandler]) req st"
    unfolding handle_def app_def by (simp add: run_layers_pass middleware_pass [OF o b])
  also have "\<dots> = (ErrorJson Unauthorized, st, cs)"
    by (simp add: api_routes_def m reads_def p r on_error_handler)
  finally show ?thesis using c by blast
qed

lemma post_malformed:
  assumes "rmethod req = POST" and "\<not> body_accepted req"
  shows "handle e req st = (ErrorJson Malformed, st, [])"
proof -
  have o: "rmethod req \<noteq> OPTIONS" using assms(1) by simp
  show ?thesis
    unfolding handle_def app_def
    by (rule middleware_malformed [OF o assms(2)]) simp
qed


section \<open>Claims\<close>



text \<open>
  C9. An address the email pattern accepts contains a dot and ends, after its last dot,
  in two or three word characters. So the pattern refuses \<open>user@example.info\<close>, whose
  final label has four characters, and validation of any User document with that email
  reports the failed \<open>match\<close> validator on the path \<open>email\<close>.
\<close>

theorem email_pattern_needs_short_final_label:
  "(test email_re s \<longrightarrow> short_final_label s)
   \<and> \<not> test email_re ''user@example.info''
   \<and> (f ''email'' = Some (Str ''user@example.info'')
        \<longrightarrow> (''email'', Match) \<in> set (validate userSchema f))"
  using email_re_short_label [of s] info_address_rejected
    email_match_fails [of f "''user@example.info''"]
  by simp

theorem email_pattern_needs_short_final_label_witness:
  "test email_re ''ada@x.com'' \<and> short_final_label ''ada@x.com''
   \<and> (''email'', Match) \<in> set (validate userSchema [''email'' \<mapsto> Str ''user@example.info''])"
proof -
  have t: "test email_re ''ada@x.com''" by code_simp
  show ?thesis
    using t email_pattern_needs_short_final_label
      [of "''ada@x.com''" "[''email'' \<mapsto> Str ''user@example.info'']"]
    by simp
qed

text \<open>
  C2. The pre-save hook leaves a document whose password was not modified as it is and
  calls bcrypt not at all; on a modified password it generates a salt with cost 12, hashes
  the password once with it and stores the hash in the field. A run of the hook, and so a
  save, calls \<open>bcrypt.hash\<close> at most once. A save of a document whose password was not modified
  calls bcrypt not at all and leaves the stored password of every stored document as it
  was. (How the salt is drawn is the library's matter: it is the result of \<open>genSalt 12\<close>.)
\<close>

theorem pre_save_hashes_only_a_modified_password:
  "(\<not> isModified d ''password'' \<longrightarrow> pre_save bc d = ([], Inr d))
   \<and> (isModified d ''password'' \<and> genSalt bc 12 = Inr salt
        \<and> vals d ''password'' = Some (Str p) \<and> hash bc p salt = Inr h
      \<longrightarrow> (\<exists>d'. pre_save bc d = ([GenSalt 12, Hash p salt], Inr d')
                \<and> vals d' = (vals d)(''password'' \<mapsto> Str h)))
   \<and> hashes (fst (pre_save bc d)) \<le> 1
   \<and> hashes (snd (snd (User_save bc now d coll))) \<le> 1
   \<and> (\<not> isModified d ''password'' \<and> User_save bc now d coll = (r, coll', calls)
        \<and> map_of coll i = Some old
      \<longrightarrow> calls = [] \<and> (\<exists>new. map_of coll' i = Some new \<and> new ''password'' = old ''password''))"
  using pre_save_unmodified [of d bc] pre_save_modified [of d bc salt p h]
    set_password_vals [of d h] pre_save_hashes [of bc d] save_hashes [of bc now d coll]
    save_unmodified_password [of d bc now coll r coll' calls i old]
  by simp

theorem pre_save_hashes_only_a_modified_password_witness:
  "(\<exists>d'. pre_save \<lparr>genSalt = (\<lambda>n. Inr ''salt''), hash = (\<lambda>p s. Inr (s @ p)),
          compare = (\<lambda>c h. Inr False)\<rparr>
       \<lparr>oid = ''u1'', vals = [''password'' \<mapsto> Str ''longenough1''], modified = {''password''},
         isNew = True, excluded = {}\<rparr>
      = ([GenSalt 12, Hash ''longenough1'' ''salt''], Inr d')
     \<and> vals d' = [''password'' \<mapsto> Str ''saltlongenough1''])
   \<and> (let res = User_save \<lparr>genSalt = (\<lambda>n. Inr ''salt''), hash = (\<lambda>p s. Inr (s @ p)),
                    compare = (\<lambda>c h. Inr False)\<rparr> 7
         (set_path userSchema (hydrate userSchema SelectDefault
            (''u1'', [''name'' \<mapsto> Str ''Ada'', ''email'' \<mapsto> Str ''ada@x.com'',
                     ''password'' \<mapsto> Str ''saltlongenough1'', ''role'' \<mapsto> Str ''user'']))
            ''name'' (Str ''Ada L''))
         [(''u1'', [''name'' \<mapsto> Str ''Ada'', ''email'' \<mapsto> Str ''ada@x.com'',
                     ''password'' \<mapsto> Str ''saltlongenough1'', ''role'' \<mapsto> Str ''user''])]
      in (case fst res of Inr d' \<Rightarrow> True | Inl e \<Rightarrow> False)
         \<and> snd (snd res) = []
         \<and> (\<exists>new. map_of (fst (snd res)) ''u1'' = Some new
               \<and> new ''password'' = Some (Str ''saltlongenough1'')))"
proof -
  let ?bc = "\<lparr>genSalt = (\<lambda>n. Inr ''salt''), hash = (\<lambda>p s. Inr (s @ p)),
      compare = (\<lambda>c h. Inr False)\<rparr>"
  let ?d = "\<lparr>oid = ''u1'', vals = [''password'' \<mapsto> Str ''longenough1''],
      modified = {''password''}, isNew = True, excluded = {}\<rparr>"
  let ?st = "[''name'' \<mapsto> Str ''Ada'', ''email'' \<mapsto> Str ''ada@x.com'',
      ''password'' \<mapsto> Str ''saltlongenough1'', ''role'' \<mapsto> Str ''user'']"
  let ?e = "set_path userSchema (hydrate userSchema SelectDefault (''u1'', ?st))
      ''name'' (Str ''Ada L'')"
  let ?res = "User_save ?bc 7 ?e [(''u1'', ?st)]"
  have a: "isModified ?d ''password''" by (simp add: isModified_def)
  have b: "\<not> isModified ?e ''password''"
    by (simp add: isModified_def set_path_def hydrate_def Let_def split: option.splits)
  have 1: "\<exists>d'. pre_save ?bc ?d = ([GenSalt 12, Hash ''longenough1'' ''salt''], Inr d')
     \<and> vals d' = [''password'' \<mapsto> Str ''saltlongenough1'']"
    using a pre_save_hashes_only_a_modified_password
      [of ?d ?bc "''salt''" "''longenough1''" "''saltlongenough1''"]
    by simp
  have 2: "snd (snd ?res) = []
         \<and> (\<exists>new. map_of (fst (snd ?res)) ''u1'' = Some new
               \<and> new ''password'' = Some (Str ''saltlongenough1''))"
    using b pre_save_hashes_only_a_modified_password
      [of ?e ?bc _ _ _ 7 "[(''u1'', ?st)]" "fst ?res" "fst (snd ?res)" "snd (snd ?res)"
          "''u1''" ?st]
    by simp
  have 3: "case fst ?res of Inr d' \<Rightarrow> True | Inl e \<Rightarrow> False"
    by code_simp
  from 1 2 3 show ?thesis by (simp add: Let_def)
qed

text \<open>
  C3. A User document read with the default projection has no password; read with
  \<open>.select('+password')\<close> it has the stored one. This holds for the documents a query
  builds (\<open>hydrate\<close>) and so for \<open>findById\<close> and \<open>findOne\<close>.
\<close>

theorem default_query_leaves_out_password:
  "vals (hydrate userSchema SelectDefault s) ''password'' = None
   \<and> vals (hydrate userSchema (SelectPlus [''password'']) s) ''password'' = snd s ''password''
   \<and> (map_of coll i = Some f \<longrightarrow>
        (\<exists>d. findById userSchema SelectDefault i coll = Some d \<and> vals d ''password'' = None)
      \<and> (\<exists>d. findById userSchema (SelectPlus [''password'']) i coll = Some d
              \<and> vals d ''password'' = f ''password''))
   \<and> (findOne userSchema SelectDefault p v coll = Some d' \<longrightarrow> vals d' ''password'' = None)"
  using hydrate_default_password [of s] findOne_default_password [of p v coll d'] hydrate_plus_password [of "[''password'']" s]
    findById_hit [of coll i f userSchema SelectDefault]
    findById_hit [of coll i f userSchema "SelectPlus [''password'']"]
    hydrate_default_password [of "(i, f)"] hydrate_plus_password [of "[''password'']" "(i, f)"]
  by simp

theorem default_query_leaves_out_password_witness:
  "(\<exists>d. findById userSchema SelectDefault ''u1''
          [(''u1'', [''email'' \<mapsto> Str ''ada@x.com'', ''password'' \<mapsto> Str ''saltlongenough1''])]
        = Some d \<and> vals d ''password'' = None)
   \<and> (\<exists>d. findById userSchema (SelectPlus [''password'']) ''u1''
          [(''u1'', [''email'' \<mapsto> Str ''ada@x.com'', ''password'' \<mapsto> Str ''saltlongenough1''])]
        = Some d \<and> vals d ''password'' = Some (Str ''saltlongenough1''))
   \<and> findOne userSchema SelectDefault ''email'' (Str ''ada@x.com'')
          [(''u1'', [''email'' \<mapsto> Str ''ada@x.com'', ''password'' \<mapsto> Str ''saltlongenough1''])]
        = Some (hydrate userSchema SelectDefault
            (''u1'', [''email'' \<mapsto> Str ''ada@x.com'', ''password'' \<mapsto> Str ''saltlongenough1'']))
   \<and> vals (hydrate userSchema SelectDefault
         (''u1'', [''email'' \<mapsto> Str ''ada@x.com'', ''password'' \<mapsto> Str ''saltlongenough1'']))
       ''password'' = None"
proof -
  let ?f = "[''email'' \<mapsto> Str ''ada@x.com'', ''password'' \<mapsto> Str ''saltlongenough1'']"
  have o: "findOne userSchema SelectDefault ''email'' (Str ''ada@x.com'') [(''u1'', ?f)]
      = Some (hydrate userSchema SelectDefault (''u1'', ?f))"
    by (simp add: findOne_def)
  show ?thesis
    using o default_query_leaves_out_password
      [of "(''u1'', ?f)" "[(''u1'', ?f)]" "''u1''" ?f "''email''" "Str ''ada@x.com''"
          "hydrate userSchema SelectDefault (''u1'', ?f)"]
    by simp
qed

text \<open>
  C5. Modelled from the spec (the handler of \<open>POST /api/users\<close>). With the body of
  the example, an identifier and an email not yet in the collection, and bcrypt returning
  a salt and a hash in its format of 60 characters, the request stores one record: its
  email is \<open>ada@x.com\<close>, its role \<open>user\<close>, its password the hash, which is not the
  input \<open>longenough1\<close>.
\<close>

theorem register_ada_stored_record:
  assumes "body ''name'' = Some (Str ''Ada'')" and "body ''email'' = Some (Str ''ADA@x.com'')"
    and "body ''password'' = Some (Str ''longenough1'')"
    and "genSalt bc 12 = Inr salt" and "hash bc ''longenough1'' salt = Inr h"
    and "length h = 60"
    and "i \<notin> fst ` set coll"
    and "\<forall>(j, g) \<in> set coll. g ''email'' \<noteq> Some (Str ''ada@x.com'')"
  shows "\<exists>d stored. registerUser bc now i body coll
           = (Inr d, coll @ [(i, stored)], [GenSalt 12, Hash ''longenough1'' salt])
         \<and> stored ''email'' = Some (Str ''ada@x.com'')
         \<and> stored ''role'' = Some (Str ''user'')
         \<and> stored ''password'' = Some (Str h)
         \<and> stored ''password'' \<noteq> Some (Str ''longenough1'')"
proof -
  from register_ada [OF assms(1-5) assms(7,8)] obtain d stored where
    r: "registerUser bc now i body coll
           = (Inr d, coll @ [(i, stored)], [GenSalt 12, Hash ''longenough1'' salt])"
       "stored ''email'' = Some (Str ''ada@x.com'')" "stored ''role'' = Some (Str ''user'')"
       "stored ''password'' = Some (Str h)"
    by blast
  from assms(6) have "h \<noteq> ''longenough1''" by auto
  with r show ?thesis by simp
qed

theorem register_ada_stored_record_witness:
  "\<exists>d stored. registerUser \<lparr>genSalt = (\<lambda>n. Inr ''salt''),
          hash = (\<lambda>p s. Inr (replicate 60 CHR ''x'')), compare = (\<lambda>c h. Inr False)\<rparr> 7 ''u1''
        [''name'' \<mapsto> Str ''Ada'', ''email'' \<mapsto> Str ''ADA@x.com'', ''password'' \<mapsto> Str ''longenough1'']
        []
      = (Inr d, [] @ [(''u1'', stored)], [GenSalt 12, Hash ''longenough1'' ''salt''])
    \<and> stored ''email'' = Some (Str ''ada@x.com'')
    \<and> stored ''role'' = Some (Str ''user'')
    \<and> stored ''password'' = Some (Str (replicate 60 CHR ''x''))
    \<and> stored ''password'' \<noteq> Some (Str ''longenough1'')"
  by (rule register_ada_stored_record) simp_all

text \<open>
  C6. Creating a User whose email (as the setters leave it) is a non-empty string that
  fails the pattern is rejected with a validation error that names the \<open>match\<close>
  validator of \<open>email\<close>; the collection is the one before the attempt and bcrypt was not
  called.
\<close>

theorem invalid_email_rejected_before_write:
  assumes "vals (new_doc userSchema i input) ''email'' = Some (Str s)"
    and "s \<noteq> []" and "\<not> test email_re s"
  shows "\<exists>es. User_create bc now i input coll = (Inl (ValidationError es), coll, [])
           \<and> (''email'', Match) \<in> set es"
  using assms by (rule create_bad_email)

theorem invalid_email_rejected_before_write_witness:
  "\<exists>es. User_create \<lparr>genSalt = (\<lambda>n. Inr ''salt''), hash = (\<lambda>p s. Inr (s @ p)),
            compare = (\<lambda>c h. Inr False)\<rparr> 7 ''u2''
          [(''name'', Str ''Bob''), (''email'', Str ''user@example.info''),
           (''password'', Str ''longenough1'')]
          [(''u1'', [''email'' \<mapsto> Str ''ada@x.com''])]
        = (Inl (ValidationError es), [(''u1'', [''email'' \<mapsto> Str ''ada@x.com''])], [])
      \<and> (''email'', Match) \<in> set es"
proof -
  have v: "vals (new_doc userSchema ''u2'' [(''name'', Str ''Bob''),
      (''email'', Str ''user@example.info''), (''password'', Str ''longenough1'')]) ''email''
      = Some (Str ''user@example.info'')"
    by code_simp
  have n: "''user@example.info'' \<noteq> []" by simp
  have t: "\<not> test email_re ''user@example.info''" by code_simp
  show ?thesis
    by (rule invalid_email_rejected_before_write [OF v n t])
qed

text \<open>
  C8. On a User document read with the default projection \<open>matchPassword\<close> raises
  (bcrypt rejects the absent hash), so it never returns true; on a document built by a
  query it returns true only if the query selected the password.
\<close>

theorem matchPassword_needs_selected_password:
  "matchPassword bc (hydrate userSchema SelectDefault s) c = Inl IllegalArguments
   \<and> (findById userSchema SelectDefault i coll = Some d \<longrightarrow> matchPassword bc d c \<noteq> Inr True)
   \<and> (matchPassword bc (hydrate userSchema sel s) c = Inr True
        \<longrightarrow> (\<exists>ps. sel = SelectPlus ps \<and> ''password'' \<in> set ps))"
proof -
  have 1: "matchPassword bc (hydrate userSchema SelectDefault s) c = Inl IllegalArguments"
    by (simp add: match_absent hydrate_default_password)
  have 2: "findById userSchema SelectDefault i coll = Some d \<longrightarrow> matchPassword bc d c \<noteq> Inr True"
    by (auto simp: findById_def match_absent hydrate_default_password)
  from 1 2 match_true_selected [of bc sel s c] show ?thesis by blast
qed

theorem matchPassword_needs_selected_password_witness:
  "findById userSchema SelectDefault ''u1''
       [(''u1'', [''email'' \<mapsto> Str ''ada@x.com'', ''password'' \<mapsto> Str ''saltlongenough1''])]
     = Some (hydrate userSchema SelectDefault
         (''u1'', [''email'' \<mapsto> Str ''ada@x.com'', ''password'' \<mapsto> Str ''saltlongenough1'']))
   \<and> matchPassword \<lparr>genSalt = (\<lambda>n. Inr ''salt''), hash = (\<lambda>p s. Inr (s @ p)),
        compare = (\<lambda>c h. Inr (h = ''salt'' @ c))\<rparr>
      (hydrate userSchema SelectDefault
         (''u1'', [''email'' \<mapsto> Str ''ada@x.com'', ''password'' \<mapsto> Str ''saltlongenough1'']))
      ''longenough1'' \<noteq> Inr True
   \<and> matchPassword \<lparr>genSalt = (\<lambda>n. Inr ''salt''), hash = (\<lambda>p s. Inr (s @ p)),
        compare = (\<lambda>c h. Inr (h = ''salt'' @ c))\<rparr>
      (hydrate userSchema (SelectPlus [''password''])
          (''u1'', [''email'' \<mapsto> Str ''ada@x.com'', ''password'' \<mapsto> Str ''saltlongenough1'']))
      ''longenough1'' = Inr True
   \<and> (\<exists>ps. SelectPlus [''password''] = SelectPlus ps \<and> ''password'' \<in> set ps)"
proof -
  let ?bc = "\<lparr>genSalt = (\<lambda>n. Inr ''salt''), hash = (\<lambda>p s. Inr (s @ p)),
        compare = (\<lambda>c h. Inr (h = ''salt'' @ c))\<rparr>"
  let ?f = "[''email'' \<mapsto> Str ''ada@x.com'', ''password'' \<mapsto> Str ''saltlongenough1'']"
  have f: "findById userSchema SelectDefault ''u1'' [(''u1'', ?f)]
      = Some (hydrate userSchema SelectDefault (''u1'', ?f))"
    by (simp add: findById_def)
  have t: "matchPassword ?bc (hydrate userSchema (SelectPlus [''password'']) (''u1'', ?f))
      ''longenough1'' = Inr True"
    by (simp add: matchPassword_def hydrate_plus_password)
  show ?thesis
    using f t matchPassword_needs_selected_password
      [of ?bc "(''u1'', ?f)" "''longenough1''" "''u1''" "[(''u1'', ?f)]"
          "hydrate userSchema SelectDefault (''u1'', ?f)" "SelectPlus [''password'']"]
    by simp
qed

text \<open>
  C4. The claim holds that in production an unmatched API path still gets the not-found
  error. The code does not do that: in production, with the frontend built, a \<open>GET\<close>
  request for \<open>/api/nonexistent\<close> matches no real route, its path is an API path, and
  the answer is the entry document of the frontend, not the error of the 404 middleware.
  \<open>app.get('*', ...)\<close> stands before that middleware and does not look at the path,
  though its comment keeps it to the routes that are not API routes.
\<close>

theorem production_get_of_unknown_api_path_sends_index:
  "unmatched
     \<lparr>NODE_ENV = Some ''production'',
      static_file = (\<lambda>p. p = [''frontend'', ''build'', ''index.html'']),
      external = (\<lambda>n r s. None), controller = (\<lambda>n r s. (Answer n, s)),
      authenticate = (\<lambda>t. None), valid_id = (\<lambda>v. False)\<rparr>
     \<lparr>rmethod = GET, rpath = [''api'', ''nonexistent''], payload = NoBody,
      credential = None, params = [], user = None\<rparr> ()
   \<and> api_path \<lparr>rmethod = GET, rpath = [''api'', ''nonexistent''], payload = NoBody,
      credential = None, params = [], user = None\<rparr>
   \<and> handle
     \<lparr>NODE_ENV = Some ''production'',
      static_file = (\<lambda>p. p = [''frontend'', ''build'', ''index.html'']),
      external = (\<lambda>n r s. None), controller = (\<lambda>n r s. (Answer n, s)),
      authenticate = (\<lambda>t. None), valid_id = (\<lambda>v. False)\<rparr>
     \<lparr>rmethod = GET, rpath = [''api'', ''nonexistent''], payload = NoBody,
      credential = None, params = [], user = None\<rparr> ()
     = (StaticFile [''frontend'', ''build'', ''index.html''], (), [])
   \<and> StaticFile [''frontend'', ''build'', ''index.html''] \<noteq> ErrorJson NotFound"
  by code_simp

text \<open>
  C7, as stated, fails: a \<open>POST\<close> request to \<open>/api/products\<close> without a credential
  whose JSON body does not parse is answered with the error of the body parser, which
  stands before the routes, and not with the authorization error.
\<close>

theorem post_products_unparsable_body_counterexample:
  "\<not> admin_credential
       \<lparr>NODE_ENV = Some ''production'', static_file = (\<lambda>p. False),
        external = (\<lambda>n r s. None),
        controller = (\<lambda>n r s. (Answer n, if n = ''createProduct'' then ''new'' # s else s)),
        authenticate = (\<lambda>t. if t = ''tok-user'' then Some \<lparr>role = ''user''\<rparr> else None),
        valid_id = (\<lambda>v. False)\<rparr>
       \<lparr>rmethod = POST, rpath = [''api'', ''products''], payload = JsonBody False,
        credential = None, params = [], user = None\<rparr>
   \<and> handle
       \<lparr>NODE_ENV = Some ''production'', static_file = (\<lambda>p. False),
        external = (\<lambda>n r s. None),
        controller = (\<lambda>n r s. (Answer n, if n = ''createProduct'' then ''new'' # s else s)),
        authenticate = (\<lambda>t. if t = ''tok-user'' then Some \<lparr>role = ''user''\<rparr> else None),
        valid_id = (\<lambda>v. False)\<rparr>
       \<lparr>rmethod = POST, rpath = [''api'', ''products''], payload = JsonBody False,
        credential = None, params = [], user = None\<rparr> [''p1'']
     = (ErrorJson Malformed, [''p1''], [])
   \<and> ErrorJson Malformed \<noteq> ErrorJson Unauthorized"
  by code_simp

text \<open>
  C7, amended. Modelled from the spec (the guards \<open>protect\<close> and \<open>admin\<close>). A \<open>POST\<close>
  request to \<open>/api/products\<close> without an admin credential (none, an invalid one, or one
  whose identity lacks the admin role) is answered with an error: the authorization error
  when the body parsers let the request through, the error of the body parser otherwise.
  At most the guards ran, \<open>createProduct\<close> did not, and the state of the database, the
  product collection included, is the one before the request.
\<close>

theorem post_products_needs_admin:
  assumes "rmethod req = POST" and "under [''api'', ''products''] (rpath req) = Some []"
    and "\<not> admin_credential e req"
  shows "\<exists>cs. handle e req st
             = (ErrorJson (if body_accepted req then Unauthorized else Malformed), st, cs)
           \<and> set cs \<subseteq> {Guard Protect, Guard Admin}
           \<and> Handler ''createProduct'' \<notin> set cs"
proof (cases "body_accepted req")
  case True
  from post_products_unauthorized [OF assms True] obtain cs where
    "handle e req st = (ErrorJson Unauthorized, st, cs)" "set cs \<subseteq> {Guard Protect, Guard Admin}"
    by blast
  with True show ?thesis by auto
next
  case False
  with post_malformed [OF assms(1) False, of e st] show ?thesis by auto
qed

theorem post_products_needs_admin_witness:
  "(\<exists>cs. handle
       \<lparr>NODE_ENV = Some ''production'', static_file = (\<lambda>p. False),
        external = (\<lambda>n r s. None),
        controller = (\<lambda>n r s. (Answer n, if n = ''createProduct'' then ''new'' # s else s)),
        authenticate = (\<lambda>t. if t = ''tok-user'' then Some \<lparr>role = ''user''\<rparr> else None),
        valid_id = (\<lambda>v. False)\<rparr>
       \<lparr>rmethod = POST, rpath = [''api'', ''products''], payload = JsonBody True,
        credential = Some ''tok-user'', params = [], user = None\<rparr> [''p1'']
     = (ErrorJson Unauthorized, [''p1''], cs)
     \<and> set cs \<subseteq> {Guard Protect, Guard Admin}
     \<and> Handler ''createProduct'' \<notin> set cs)
   \<and> (\<exists>cs. handle
       \<lparr>NODE_ENV = Some ''production'', static_file = (\<lambda>p. False),
        external = (\<lambda>n r s. None),
        controller = (\<lambda>n r s. (Answer n, if n = ''createProduct'' then ''new'' # s else s)),
        authenticate = (\<lambda>t. if t = ''tok-user'' then Some \<lparr>role = ''user''\<rparr> else None),
        valid_id = (\<lambda>v. False)\<rparr>
       \<lparr>rmethod = POST, rpath = [''api'', ''products''], payload = JsonBody False,
        credential = Some ''tok-user'', params = [], user = None\<rparr> [''p1'']
     = (ErrorJson Malformed, [''p1''], cs)
     \<and> set cs \<subseteq> {Guard Protect, Guard Admin}
     \<and> Handler ''createProduct'' \<notin> set cs)"
proof -
  let ?e = "\<lparr>NODE_ENV = Some ''production'', static_file = (\<lambda>p. False),
        external = (\<lambda>n r s. None),
        controller = (\<lambda>n r s. (Answer n, if n = ''createProduct'' then ''new'' # s else s)),
        authenticate = (\<lambda>t. if t = ''tok-user'' then Some \<lparr>role = ''user''\<rparr> else None),
        valid_id = (\<lambda>v. False)\<rparr>"
  let ?a = "\<lparr>rmethod = POST, rpath = [''api'', ''products''], payload = JsonBody True,
        credential = Some ''tok-user'', params = [], user = None\<rparr>"
  let ?b = "\<lparr>rmethod = POST, rpath = [''api'', ''products''], payload = JsonBody False,
        credential = Some ''tok-user'', params = [], user = None\<rparr>"
  have u: "under [''api'', ''products''] [''api'', ''products''] = Some []"
    by (simp add: seg_eq_def)
  have n: "\<not> admin_credential ?e ?a" "\<not> admin_credential ?e ?b"
    by (simp_all add: admin_credential_def)
  show ?thesis
    using post_products_needs_admin [of ?a ?e "[''p1'']"]
      post_products_needs_admin [of ?b ?e "[''p1'']"] u n
    by (simp add: body_accepted_def)
qed

text \<open>
  C10. There is an order document with \<open>isPaid\<close> and \<open>isDelivered\<close> true and neither
  \<open>paidAt\<close> nor \<open>deliveredAt\<close> that passes validation; and whatever the flags, a valid
  order stays valid when \<open>paidAt\<close> and \<open>deliveredAt\<close> are removed.
\<close>

theorem order_flags_not_tied_to_timestamps:
  "(\<exists>od. ofields od ''isPaid'' = Some (Bool True) \<and> ofields od ''paidAt'' = None
        \<and> ofields od ''isDelivered'' = Some (Bool True) \<and> ofields od ''deliveredAt'' = None
        \<and> validate_order od = [])
   \<and> (validate_order od' = [] \<longrightarrow>
        validate_order (od'\<lparr>ofields := (ofields od')(''paidAt'' := None, ''deliveredAt'' := None)\<rparr>)
          = [])"
proof -
  let ?od = "\<lparr>ofields = (defaults_of orderSchema)
       (''user'' \<mapsto> ObjectId ''u1'', ''shippingAddress.address'' \<mapsto> Str ''1 Main St'',
        ''shippingAddress.city'' \<mapsto> Str ''Leeds'', ''shippingAddress.postalCode'' \<mapsto> Str ''LS1'',
        ''shippingAddress.country'' \<mapsto> Str ''UK'', ''paymentMethod'' \<mapsto> Str ''Stripe'',
        ''isPaid'' \<mapsto> Bool True, ''isDelivered'' \<mapsto> Bool True),
      orderItems = [[''name'' \<mapsto> Str ''Pen'', ''qty'' \<mapsto> Num 2, ''image'' \<mapsto> Str ''/pen.png'',
        ''price'' \<mapsto> Num 3, ''product'' \<mapsto> ObjectId ''p1'']]\<rparr>"
  have "ofields ?od ''isPaid'' = Some (Bool True) \<and> ofields ?od ''paidAt'' = None
        \<and> ofields ?od ''isDelivered'' = Some (Bool True) \<and> ofields ?od ''deliveredAt'' = None"
    by (simp add: defaults_of_def orderSchema_def path_of_def)
  with paid_order_valid have "\<exists>od. ofields od ''isPaid'' = Some (Bool True)
        \<and> ofields od ''paidAt'' = None
        \<and> ofields od ''isDelivered'' = Some (Bool True) \<and> ofields od ''deliveredAt'' = None
        \<and> validate_order od = []"
    by blast
  with validate_order_drop_dates [of od'] show ?thesis by blast
qed

theorem order_flags_not_tied_to_timestamps_witness:
  "validate_order \<lparr>ofields = [''user'' \<mapsto> ObjectId ''u1'',
        ''shippingAddress.address'' \<mapsto> Str ''1 Main St'', ''shippingAddress.city'' \<mapsto> Str ''Leeds'',
        ''shippingAddress.postalCode'' \<mapsto> Str ''LS1'', ''shippingAddress.country'' \<mapsto> Str ''UK'',
        ''paymentMethod'' \<mapsto> Str ''Stripe'', ''itemsPrice'' \<mapsto> Num 6, ''taxPrice'' \<mapsto> Num 1,
        ''shippingPrice'' \<mapsto> Num 2, ''totalPrice'' \<mapsto> Num 9, ''isPaid'' \<mapsto> Bool True,
        ''paidAt'' \<mapsto> Date 1700000000, ''isDelivered'' \<mapsto> Bool True,
        ''deliveredAt'' \<mapsto> Date 1700003600],
      orderItems = []\<rparr> = []
   \<and> validate_order \<lparr>ofields = [''user'' \<mapsto> ObjectId ''u1'',
        ''shippingAddress.address'' \<mapsto> Str ''1 Main St'', ''shippingAddress.city'' \<mapsto> Str ''Leeds'',
        ''shippingAddress.postalCode'' \<mapsto> Str ''LS1'', ''shippingAddress.country'' \<mapsto> Str ''UK'',
        ''paymentMethod'' \<mapsto> Str ''Stripe'', ''itemsPrice'' \<mapsto> Num 6, ''taxPrice'' \<mapsto> Num 1,
        ''shippingPrice'' \<mapsto> Num 2, ''totalPrice'' \<mapsto> Num 9, ''isPaid'' \<mapsto> Bool True,
        ''isDelivered'' \<mapsto> Bool True],
      orderItems = []\<rparr> = []"
proof -
  let ?f = "[''user'' \<mapsto> ObjectId ''u1'',
        ''shippingAddress.address'' \<mapsto> Str ''1 Main St'', ''shippingAddress.city'' \<mapsto> Str ''Leeds'',
        ''shippingAddress.postalCode'' \<mapsto> Str ''LS1'', ''shippingAddress.country'' \<mapsto> Str ''UK'',
        ''paymentMethod'' \<mapsto> Str ''Stripe'', ''itemsPrice'' \<mapsto> Num 6, ''taxPrice'' \<mapsto> Num 1,
        ''shippingPrice'' \<mapsto> Num 2, ''totalPrice'' \<mapsto> Num 9, ''isPaid'' \<mapsto> Bool True,
        ''paidAt'' \<mapsto> Date 1700000000, ''isDelivered'' \<mapsto> Bool True,
        ''deliveredAt'' \<mapsto> Date 1700003600]"
  have v: "validate_order \<lparr>ofields = ?f, orderItems = []\<rparr> = []"
    by code_simp
  have e: "?f(''paidAt'' := None, ''deliveredAt'' := None)
      = [''user'' \<mapsto> ObjectId ''u1'',
        ''shippingAddress.address'' \<mapsto> Str ''1 Main St'', ''shippingAddress.city'' \<mapsto> Str ''Leeds'',
        ''shippingAddress.postalCode'' \<mapsto> Str ''LS1'', ''shippingAddress.country'' \<mapsto> Str ''UK'',
        ''paymentMethod'' \<mapsto> Str ''Stripe'', ''itemsPrice'' \<mapsto> Num 6, ''taxPrice'' \<mapsto> Num 1,
        ''shippingPrice'' \<mapsto> Num 2, ''totalPrice'' \<mapsto> Num 9, ''isPaid'' \<mapsto> Bool True,
        ''isDelivered'' \<mapsto> Bool True]"
    by (rule ext) simp
  show ?thesis
    using v order_flags_not_tied_to_timestamps [of "\<lparr>ofields = ?f, orderItems = []\<rparr>"]
    by (simp add: e)
qed

end
